theory Spec2Isabelle
  imports Main "HOL-Library.Multiset"
begin

section \<open>Strings and map iteration\<close>

text \<open>
  Go strings are byte strings; \<open>strings.ToLower\<close> on an ASCII string adds \<open>'a' - 'A'\<close> to
  each byte in \<open>'A'..'Z'\<close>. Bytes outside ASCII are left as they are here, so the model
  is that of \<open>strings.ToLower\<close> on ASCII input: on other input \<open>strings.ToLower\<close> maps
  runes by \<open>unicode.ToLower\<close>, which sends some runes outside ASCII to ASCII letters
  (U+0130 to \<open>i\<close>, U+212A to \<open>k\<close>), and there the code may match a name where the model
  does not.
\<close>

definition lower_byte :: "char \<Rightarrow> char" where
  "lower_byte c =
     (if (65::nat) \<le> of_char c \<and> of_char c \<le> (90::nat)
      then char_of (of_char c + (32::nat)) else c)"

definition ToLower :: "string \<Rightarrow> string" where
  "ToLower s = map lower_byte s"

text \<open>\<open>strings.HasPrefix(s, prefix)\<close>.\<close>

fun HasPrefix :: "string \<Rightarrow> string \<Rightarrow> bool" where
  "HasPrefix s [] = True"
| "HasPrefix [] (p # ps) = False"
| "HasPrefix (c # cs) (p # ps) = (c = p \<and> HasPrefix cs ps)"

text \<open>\<open>strings.Join(elems, sep)\<close>.\<close>

fun Join :: "string list \<Rightarrow> string \<Rightarrow> string" where
  "Join [] sep = []"
| "Join [x] sep = x"
| "Join (x # y # ys) sep = x @ sep @ Join (y # ys) sep"

text \<open>
  A Go map is a finite table of entries, and \<open>for k, v := range m\<close> visits every entry
  once in an order the runtime chooses anew at each loop. The order is a parameter of
  the model: any list holding the entries of the table.
\<close>

definition iteration_order :: "('k \<times> 'v) list \<Rightarrow> ('k \<times> 'v) list \<Rightarrow> bool" where
  "iteration_order m order \<longleftrightarrow> mset order = mset m"

text \<open>
  The loop of \<open>ParseLevel\<close>, the same in every revision:
  \<^verbatim>\<open>for l, name := range levelNames { if strings.HasPrefix(name, s) { return l } }\<close>
  over the entries in the order given; \<open>None\<close> when the loop falls through.
\<close>

fun range_levelNames :: "('l \<times> string) list \<Rightarrow> string \<Rightarrow> 'l option" where
  "range_levelNames [] s = None"
| "range_levelNames ((l, name) # rest) s =
     (if HasPrefix name s then Some l else range_levelNames rest s)"

section \<open>What a call does to the process\<close>

text \<open>
  A call returns after writing some records, ends the process through \<open>os.Exit\<close>, or
  panics; each outcome carries what was written before, in order.
\<close>

datatype Writer = Stdout | Discard | Buffer nat

datatype 'r outcome = Returned "'r list" | Exited "'r list" int | Panicked "'r list"

fun written :: "'r outcome \<Rightarrow> 'r list" where
  "written (Returned ws) = ws"
| "written (Exited ws n) = ws"
| "written (Panicked ws) = ws"

text \<open>\<open>os.Exit(code)\<close> placed after a call: reached only when that call returns.\<close>

fun os_Exit :: "'r outcome \<Rightarrow> int \<Rightarrow> 'r outcome" where
  "os_Exit (Returned ws) code = Exited ws code"
| "os_Exit (Exited ws n) code = Exited ws n"
| "os_Exit (Panicked ws) code = Panicked ws"

text \<open>
  What the runtime supplies to a call: the clock, how a time renders in the local zone
  and in UTC (RFC 3339 with nanoseconds), and the call stack, as the string
  \<open>stack.Caller(depth)\<close> formats to under \<open>"%+k/%s:%d"\<close>.
\<close>

record env =
  now :: nat
  Local :: "nat \<Rightarrow> string"
  UTC :: "nat \<Rightarrow> string"
  stack_Caller :: "nat \<Rightarrow> string"

definition FormatLogFmt :: string where "FormatLogFmt = ''logfmt''"
definition FormatJSON :: string where "FormatJSON = ''json''"

section \<open>The go-kit revision\<close>

subsection \<open>Levels\<close>

text \<open>
  \<open>type Level int8\<close> with \<open>All Level = iota\<close> and the five levels after it. Levels are
  only compared, never computed with, so the integers stand for the \<open>int8\<close> values.
\<close>

type_synonym Level = int

definition All_level :: Level where "All_level = 0"
definition Fatal :: Level where "Fatal = 1"
definition Err :: Level where "Err = 2"
definition Warn :: Level where "Warn = 3"
definition Info :: Level where "Info = 4"
definition Debug :: Level where "Debug = 5"

definition levelNames_kit :: "(Level \<times> string) list" where
  "levelNames_kit =
     [(All_level, ''all''), (Fatal, ''fatal''), (Err, ''err''),
      (Warn, ''warn''), (Info, ''info''), (Debug, ''debug'')]"

text \<open>A map read \<open>m[k]\<close> gives the zero value, the empty string, for a key not in the map.\<close>

definition map_index :: "('k \<times> string) list \<Rightarrow> 'k \<Rightarrow> string" where
  "map_index m k = (case map_of m k of None \<Rightarrow> [] | Some v \<Rightarrow> v)"

definition Level_String :: "Level \<Rightarrow> string" where
  "Level_String l =
     (case map_of levelNames_kit l of
        None \<Rightarrow> map_index levelNames_kit All_level
      | Some name \<Rightarrow> name)"

definition ParseLevel_kit :: "(Level \<times> string) list \<Rightarrow> string \<Rightarrow> Level" where
  "ParseLevel_kit order s =
     (case range_levelNames order (ToLower s) of Some l \<Rightarrow> l | None \<Rightarrow> All_level)"

subsection \<open>The go-kit logger the wrapper drives\<close>

text \<open>
  \<open>github.com/go-kit/log\<close> is a dependency, not code of the repository. What the wrapper
  relies on is its contract: \<open>log.With\<close> returns a logger whose context is the old context
  followed by the new keyvals (padded with \<open>ErrMissingValue\<close> to even length, and the
  logger itself when no keyvals are given); \<open>Log\<close> hands the context followed by the
  call's keyvals to the encoder, after replacing each \<open>Valuer\<close> in a value position of the
  context by its current value; the logfmt encoder writes the pairs in that order.
\<close>

datatype kit_any = KString string | KTimestampUTC | KCaller nat | KErrMissingValue

record kit_Logger =
  kit_format :: string
  kit_writer :: Writer
  kit_keyvals :: "kit_any list"

record kit_record =
  rec_writer :: Writer
  rec_format :: string
  rec_keyvals :: "kit_any list"

definition NewLogfmtLogger :: "Writer \<Rightarrow> kit_Logger" where
  "NewLogfmtLogger w = \<lparr>kit_format = FormatLogFmt, kit_writer = w, kit_keyvals = []\<rparr>"

definition NewJSONLogger :: "Writer \<Rightarrow> kit_Logger" where
  "NewJSONLogger w = \<lparr>kit_format = FormatJSON, kit_writer = w, kit_keyvals = []\<rparr>"

definition pad_missing :: "kit_any list \<Rightarrow> kit_any list" where
  "pad_missing kvs = (if odd (length kvs) then kvs @ [KErrMissingValue] else kvs)"

definition log_With :: "kit_Logger \<Rightarrow> kit_any list \<Rightarrow> kit_Logger" where
  "log_With l keyvals =
     (if keyvals = [] then l
      else l\<lparr>kit_keyvals := pad_missing (kit_keyvals l @ keyvals)\<rparr>)"

fun bindValues :: "env \<Rightarrow> kit_any list \<Rightarrow> kit_any list" where
  "bindValues e (k # KTimestampUTC # rest) = k # KString (UTC e (now e)) # bindValues e rest"
| "bindValues e (k # KCaller depth # rest) = k # KString (stack_Caller e depth) # bindValues e rest"
| "bindValues e (k # v # rest) = k # v # bindValues e rest"
| "bindValues e kvs = kvs"

definition kit_Log :: "kit_Logger \<Rightarrow> env \<Rightarrow> kit_any list \<Rightarrow> kit_record outcome" where
  "kit_Log l e keyvals =
     Returned [\<lparr>rec_writer = kit_writer l, rec_format = kit_format l,
                rec_keyvals = pad_missing (bindValues e (kit_keyvals l) @ keyvals)\<rparr>]"


subsection \<open>The wrapper\<close>

record L_kit =
  logger :: kit_Logger
  Level :: Level
  src :: "string list"

text \<open>
  \<open>New(w, name, level, format, keyvals...)\<close>; \<open>order\<close> is the order in which \<open>ParseLevel\<close>
  happens to meet the entries of \<open>levelNames\<close>.
\<close>

definition New_kit ::
  "(Level \<times> string) list \<Rightarrow> Writer option \<Rightarrow> string \<Rightarrow> string \<Rightarrow> string \<Rightarrow> kit_any list \<Rightarrow> L_kit" where
  "New_kit order w name level format keyvals =
     (let w' = (case w of None \<Rightarrow> Stdout | Some x \<Rightarrow> x);
          l0 = (if ToLower format = FormatJSON then NewJSONLogger w' else NewLogfmtLogger w');
          l1 = log_With l0 [KString ''ts'', KTimestampUTC, KString ''caller'', KCaller 5];
          l2 = (if length keyvals > 0 then log_With l1 keyvals else l1)
      in \<lparr>logger = l2, Level = ParseLevel_kit order level, src = [name]\<rparr>)"

definition source :: "L_kit \<Rightarrow> string" where
  "source l = Join (src l) ''.''"

text \<open>
  \<open>(l *L) log(level, lvl, keyvals...)\<close>. The receiver is a pointer: \<open>None\<close> is \<open>nil\<close>.
\<close>

definition L_log_kit ::
  "L_kit option \<Rightarrow> env \<Rightarrow> Level \<Rightarrow> kit_Logger \<Rightarrow> kit_any list \<Rightarrow> kit_record outcome" where
  "L_log_kit l e level lvl keyvals =
     (case l of
        None \<Rightarrow> Returned []
      | Some l' \<Rightarrow>
          if level > Level l' \<and> Level l' \<noteq> All_level then Returned []
          else kit_Log lvl e keyvals)"

text \<open>
  The public methods evaluate \<open>l.logger\<close> and \<open>l.source()\<close> for the arguments of
  \<open>l.log\<close> before \<open>l.log\<close> is entered, so a \<open>nil\<close> receiver panics there.
\<close>

definition leveled_kit ::
  "Level \<Rightarrow> L_kit option \<Rightarrow> env \<Rightarrow> kit_any \<Rightarrow> kit_any list \<Rightarrow> kit_record outcome" where
  "leveled_kit level l e msg keyvals =
     (case l of
        None \<Rightarrow> Panicked []
      | Some l' \<Rightarrow>
          L_log_kit l e level
            (log_With (logger l')
               [KString ''src'', KString (source l'),
                KString ''level'', KString (Level_String level),
                KString ''msg'', msg])
            keyvals)"





definition L_Fatal_kit :: "L_kit option \<Rightarrow> env \<Rightarrow> kit_any \<Rightarrow> kit_any list \<Rightarrow> kit_record outcome" where
  "L_Fatal_kit l e msg keyvals = os_Exit (leveled_kit Fatal l e msg keyvals) 1"



definition Default_kit :: "(Level \<times> string) list \<Rightarrow> L_kit" where
  "Default_kit order = New_kit order None ''default'' [] FormatLogFmt []"

section \<open>The slog revisions\<close>

subsection \<open>Levels\<close>

text \<open>
  \<open>slog.Level\<close> is an \<open>int\<close>; \<open>slog.LevelDebug\<close>, \<open>LevelInfo\<close>, \<open>LevelWarn\<close> and
  \<open>LevelError\<close> are -4, 0, 4 and 8. The wrapper adds \<open>LevelAll\<close> and \<open>LevelFatal\<close>.
\<close>

definition slog_LevelDebug :: int where "slog_LevelDebug = - 4"
definition slog_LevelInfo :: int where "slog_LevelInfo = 0"
definition slog_LevelWarn :: int where "slog_LevelWarn = 4"
definition slog_LevelError :: int where "slog_LevelError = 8"

definition LevelAll :: int where "LevelAll = - 10"
definition LevelFatal :: int where "LevelFatal = 12"

definition levelNames :: "(int \<times> string) list" where
  "levelNames =
     [(LevelAll, ''all''), (LevelFatal, ''fatal''), (slog_LevelError, ''err''),
      (slog_LevelWarn, ''warn''), (slog_LevelInfo, ''info''), (slog_LevelDebug, ''debug'')]"

definition ParseLevel :: "(int \<times> string) list \<Rightarrow> string \<Rightarrow> int" where
  "ParseLevel order s =
     (case range_levelNames order (ToLower s) of Some l \<Rightarrow> l | None \<Rightarrow> LevelAll)"

text \<open>
  \<open>DynamicLeveler\<close>: one atomically stored level, set from a string through
  \<open>ParseLevel\<close>.
\<close>

record DynamicLeveler =
  level :: int

definition NewDynamicLeveler :: "(int \<times> string) list \<Rightarrow> string \<Rightarrow> DynamicLeveler" where
  "NewDynamicLeveler order initialLevel = \<lparr>level = ParseLevel order initialLevel\<rparr>"

definition SetLevel :: "(int \<times> string) list \<Rightarrow> DynamicLeveler \<Rightarrow> string \<Rightarrow> DynamicLeveler" where
  "SetLevel order d s = d\<lparr>level := ParseLevel order s\<rparr>"

subsection \<open>Decimal formatting\<close>

text \<open>\<open>fmt.Sprintf("%02d", i)\<close> for an index \<open>i \<ge> 0\<close>: decimal, zero-padded to width two.\<close>

definition digit :: "nat \<Rightarrow> char" where
  "digit d = char_of (48 + d)"

fun itoa :: "nat \<Rightarrow> string" where
  "itoa n = (if n < 10 then [digit n] else itoa (n div 10) @ [digit (n mod 10)])"

declare itoa.simps [simp del]

definition Sprintf_02d :: "nat \<Rightarrow> string" where
  "Sprintf_02d i = (if i < 10 then CHR ''0'' # itoa i else itoa i)"

text \<open>\<open>fmt.Sprintf("%+d", v)\<close>: the sign, then the decimal digits.\<close>

definition Sprintf_plus_d :: "int \<Rightarrow> string" where
  "Sprintf_plus_d v = (if v < 0 then CHR ''-'' # itoa (nat (- v)) else CHR ''+'' # itoa (nat v))"

subsection \<open>The slog logger the wrapper drives\<close>

text \<open>
  \<open>log/slog\<close> is the Go standard library, not code of the repository. What the wrapper
  relies on is its contract. Arguments are turned into attributes by \<open>argsToAttrSlice\<close>:
  an \<open>Attr\<close> stands for itself, a string is the key of the argument after it, anything
  else (and a last string without a value) is filed under \<open>!BADKEY\<close>. A handler made with
  \<open>HandlerOptions{Level, ReplaceAttr}\<close> drops a record below \<open>Level\<close> (\<open>LevelInfo\<close> when
  \<open>Level\<close> is nil), and writes the built-in attributes \<open>time\<close>, \<open>level\<close>, \<open>msg\<close>, then the
  attributes bound by \<open>With\<close> in binding order, then those of the call; \<open>ReplaceAttr\<close> is
  applied to every attribute, built-in or not, at \<open>With\<close> for the bound ones. Groups and
  the dropping of empty attributes are left out.
\<close>

datatype any =
    AnyString string
  | AnyAttr string any
  | AnyLevel int
  | AnyTime nat
  | AnyOther string

type_synonym Attr = "string \<times> any"

datatype 'a go = Value 'a | Panics

definition slog_String :: "string \<Rightarrow> string \<Rightarrow> any" where
  "slog_String key v = AnyAttr key (AnyString v)"

definition badKey :: string where "badKey = ''!BADKEY''"
definition TimeKey :: string where "TimeKey = ''time''"
definition LevelKey :: string where "LevelKey = ''level''"
definition MessageKey :: string where "MessageKey = ''msg''"

fun argsToAttrSlice :: "any list \<Rightarrow> Attr list" where
  "argsToAttrSlice [] = []"
| "argsToAttrSlice (AnyAttr k v # rest) = (k, v) # argsToAttrSlice rest"
| "argsToAttrSlice [AnyString x] = [(badKey, AnyString x)]"
| "argsToAttrSlice (AnyString x # v # rest) = (x, v) # argsToAttrSlice rest"
| "argsToAttrSlice (x # rest) = (badKey, x) # argsToAttrSlice rest"

text \<open>\<open>slog.Level.String\<close>, used by \<open>ReplaceAttr\<close> for a level without a name of its own.\<close>

definition slog_Level_String :: "int \<Rightarrow> string" where
  "slog_Level_String l =
     (let str = (\<lambda>base val. if val = 0 then base else base @ Sprintf_plus_d val)
      in if l < slog_LevelInfo then str ''DEBUG'' (l - slog_LevelDebug)
         else if l < slog_LevelWarn then str ''INFO'' (l - slog_LevelInfo)
         else if l < slog_LevelError then str ''WARN'' (l - slog_LevelWarn)
         else str ''ERROR'' (l - slog_LevelError))"

text \<open>
  The \<open>ReplaceAttr\<close> closure of \<open>New\<close>, over the time formatter of the options. The key
  \<open>time\<close> becomes \<open>ts\<close>, and with a formatter the value is read as a time
  (\<open>a.Value.Time()\<close> panics on another kind); under the key \<open>level\<close> the value is asserted
  to be a \<open>slog.Level\<close> (\<open>a.Value.Any().(slog.Level)\<close> panics on anything else) and
  replaced by its name.
\<close>

definition ReplaceAttr :: "(nat \<Rightarrow> string) option \<Rightarrow> Attr \<Rightarrow> Attr go" where
  "ReplaceAttr timeFormatter a =
     (case a of (key, v) \<Rightarrow>
        if key = TimeKey then
          (case timeFormatter of
             None \<Rightarrow> Value (''ts'', v)
           | Some f \<Rightarrow> (case v of AnyTime t \<Rightarrow> Value (''ts'', AnyString (f t)) | _ \<Rightarrow> Panics))
        else if key = LevelKey then
          (case v of
             AnyLevel lv \<Rightarrow>
               Value (key, AnyString (case map_of levelNames lv of
                                         None \<Rightarrow> slog_Level_String lv
                                       | Some levelLabel \<Rightarrow> levelLabel))
           | _ \<Rightarrow> Panics)
        else Value a)"

fun ReplaceAttrs :: "(nat \<Rightarrow> string) option \<Rightarrow> Attr list \<Rightarrow> Attr list go" where
  "ReplaceAttrs tf [] = Value []"
| "ReplaceAttrs tf (a # as) =
     (case ReplaceAttr tf a of
        Panics \<Rightarrow> Panics
      | Value b \<Rightarrow> (case ReplaceAttrs tf as of Panics \<Rightarrow> Panics | Value bs \<Rightarrow> Value (b # bs)))"

record slog_Logger =
  h_json :: bool
  h_writer :: Writer
  h_Level :: "int option"
  h_timeFormatter :: "(nat \<Rightarrow> string) option"
  h_attrs :: "Attr list"

record slog_record =
  r_writer :: Writer
  r_json :: bool
  r_attrs :: "Attr list"

definition slog_New :: "bool \<Rightarrow> Writer \<Rightarrow> int option \<Rightarrow> (nat \<Rightarrow> string) option \<Rightarrow> slog_Logger" where
  "slog_New json w lv tf =
     \<lparr>h_json = json, h_writer = w, h_Level = lv, h_timeFormatter = tf, h_attrs = []\<rparr>"

definition slog_With :: "slog_Logger \<Rightarrow> any list \<Rightarrow> slog_Logger go" where
  "slog_With l args =
     (if args = [] then Value l
      else case ReplaceAttrs (h_timeFormatter l) (argsToAttrSlice args) of
             Panics \<Rightarrow> Panics
           | Value as \<Rightarrow> Value (l\<lparr>h_attrs := h_attrs l @ as\<rparr>))"

definition Enabled :: "slog_Logger \<Rightarrow> int \<Rightarrow> bool" where
  "Enabled l lv = (lv \<ge> (case h_Level l of None \<Rightarrow> slog_LevelInfo | Some minLevel \<Rightarrow> minLevel))"

definition slog_Log :: "slog_Logger \<Rightarrow> env \<Rightarrow> int \<Rightarrow> string \<Rightarrow> any list \<Rightarrow> slog_record outcome" where
  "slog_Log l e lv msg args =
     (if \<not> Enabled l lv then Returned []
      else case ReplaceAttrs (h_timeFormatter l)
                  [(TimeKey, AnyTime (now e)), (LevelKey, AnyLevel lv), (MessageKey, AnyString msg)] of
             Panics \<Rightarrow> Panicked []
           | Value builtins \<Rightarrow>
               (case ReplaceAttrs (h_timeFormatter l) (argsToAttrSlice args) of
                  Panics \<Rightarrow> Panicked []
                | Value attrs \<Rightarrow>
                    Returned [\<lparr>r_writer = h_writer l, r_json = h_json l,
                               r_attrs = builtins @ h_attrs l @ attrs\<rparr>]))"

subsection \<open>Options\<close>

text \<open>
  The \<open>options\<close> struct, with the fields prefixed by \<open>o_\<close>. A time formatter is a
  function from times to strings, and a time location is given by how it renders a time.
\<close>

record options =
  o_format :: string
  o_name :: string
  o_keyvals :: "any list"
  o_level :: string
  o_destination :: Writer
  o_showCaller :: bool
  o_callerPrefixTrim :: string
  o_timeFormatter :: "(nat \<Rightarrow> string) option"

text \<open>
  \<open>type Option func(*options)\<close>: the type \<open>options\<close> is unexported, so the options are
  those the package's constructors build. \<open>WithAutoCallerPrefixTrim\<close> carries what
  \<open>debug.ReadBuildInfo\<close> gave for the main module's path, if anything.
\<close>

datatype Option =
    WithFormat string
  | With "any list"
  | WithLevel string
  | WithDestination Writer
  | WithName string
  | WithCaller bool
  | WithTimeLocation "nat \<Rightarrow> string"
  | WithCallerPrefixTrim string
  | WithAutoCallerPrefixTrim "string option"

definition HasSuffix :: "string \<Rightarrow> string \<Rightarrow> bool" where
  "HasSuffix s suffix = HasPrefix (rev s) (rev suffix)"

text \<open>The closure \<open>WithCallerPrefixTrim(str)\<close> returns.\<close>

definition set_callerPrefixTrim :: "string \<Rightarrow> options \<Rightarrow> options" where
  "set_callerPrefixTrim str o' =
     (if str \<noteq> [] then
        o'\<lparr>o_callerPrefixTrim := (if \<not> HasSuffix str ''/'' then str @ ''/'' else str)\<rparr>
      else o')"

fun apply_Option :: "Option \<Rightarrow> options \<Rightarrow> options" where
  "apply_Option (WithFormat f) o' = o'\<lparr>o_format := f\<rparr>"
| "apply_Option (With keyvals) o' = o'\<lparr>o_keyvals := keyvals\<rparr>"
| "apply_Option (WithLevel lv) o' = o'\<lparr>o_level := lv\<rparr>"
| "apply_Option (WithDestination w) o' = o'\<lparr>o_destination := w\<rparr>"
| "apply_Option (WithName n) o' = o'\<lparr>o_name := n\<rparr>"
| "apply_Option (WithCaller b) o' = o'\<lparr>o_showCaller := b\<rparr>"
| "apply_Option (WithTimeLocation loc) o' = o'\<lparr>o_timeFormatter := Some loc\<rparr>"
| "apply_Option (WithCallerPrefixTrim str) o' = set_callerPrefixTrim str o'"
| "apply_Option (WithAutoCallerPrefixTrim bi) o' =
     (case bi of None \<Rightarrow> o' | Some path \<Rightarrow> set_callerPrefixTrim path o')"

text \<open>\<open>for _, o := range opts { o(opt) }\<close>: a slice is ranged over in index order.\<close>

fun apply_opts :: "Option list \<Rightarrow> options \<Rightarrow> options" where
  "apply_opts [] opt = opt"
| "apply_opts (o' # opts) opt = apply_opts opts (apply_Option o' opt)"

subsection \<open>The wrapper\<close>

record L =
  slogger :: slog_Logger
  src :: "string list"
  showCaller :: bool
  callerPrefixTrim :: string

text \<open>
  \<open>New(opts...)\<close>; \<open>arg0\<close> is \<open>filepath.Base(os.Args[0])\<close>. The current revision hands
  \<open>opt.leveler\<close> to the handler as its \<open>Level\<close>; the options struct of the sources has no
  such field and no option sets one, so its value is the parameter \<open>leveler\<close>: a
  \<open>slog.Leveler\<close>, given by the level it reports, or \<open>None\<close> for nil. \<open>slog.Logger.With\<close>
  formats the attributes it binds, through \<open>ReplaceAttr\<close>, so \<open>New\<close> panics where that
  does.
\<close>

definition default_options :: "string \<Rightarrow> options" where
  "default_options arg0 =
     \<lparr>o_format = [], o_name = arg0, o_keyvals = [], o_level = [],
      o_destination = Stdout, o_showCaller = True, o_callerPrefixTrim = [],
      o_timeFormatter = None\<rparr>"

definition install_timeFormatter :: "env \<Rightarrow> options \<Rightarrow> options" where
  "install_timeFormatter e opt =
     (case o_timeFormatter opt of
        None \<Rightarrow>
          if Local e (now e) \<noteq> UTC e (now e) then opt\<lparr>o_timeFormatter := Some (UTC e)\<rparr>
          else opt
      | Some f \<Rightarrow> opt)"

definition New :: "env \<Rightarrow> string \<Rightarrow> int option \<Rightarrow> Option list \<Rightarrow> L go" where
  "New e arg0 leveler opts =
     (let opt = install_timeFormatter e (apply_opts opts (default_options arg0));
          l = slog_New (ToLower (o_format opt) = FormatJSON) (o_destination opt)
                leveler (o_timeFormatter opt)
      in case slog_With l (o_keyvals opt @ [slog_String ''src'' (o_name opt)]) of
           Panics \<Rightarrow> Panics
         | Value l' \<Rightarrow>
             Value \<lparr>slogger = l', src = [o_name opt], showCaller = o_showCaller opt,
                    callerPrefixTrim = o_callerPrefixTrim opt\<rparr>)"

definition TrimPrefix :: "string \<Rightarrow> string \<Rightarrow> string" where
  "TrimPrefix s prefix = (if HasPrefix s prefix then drop (length prefix) s else s)"

definition caller :: "env \<Rightarrow> nat \<Rightarrow> string \<Rightarrow> string" where
  "caller e depth prefixTrim =
     (if prefixTrim \<noteq> [] then TrimPrefix (stack_Caller e depth) prefixTrim
      else stack_Caller e depth)"

text \<open>
  \<open>(l *L) New(name)\<close> and \<open>(l *L) With(keyvals...)\<close> read the fields of the receiver, so
  a nil receiver panics. As in the go-kit revision, \<open>append(l.src, name)\<close> is given by its
  value at the call, and the sharing of an array between the slices of siblings is not
  modelled; the \<open>src\<close> attribute is computed and bound at the call.
\<close>

definition L_New :: "L option \<Rightarrow> string \<Rightarrow> L go" where
  "L_New l name =
     (case l of
        None \<Rightarrow> Panics
      | Some l' \<Rightarrow>
          (case slog_With (slogger l')
                  [slog_String ''src'' (Join (L.src l' @ [name]) ''.'')] of
             Panics \<Rightarrow> Panics
           | Value s \<Rightarrow>
               Value \<lparr>slogger = s, src = L.src l' @ [name], showCaller = showCaller l',
                      callerPrefixTrim = callerPrefixTrim l'\<rparr>))"


text \<open>
  The message of a call is a string, an error (given by its \<open>Error()\<close> text), a
  \<open>fmt.Stringer\<close> (given by its \<open>String()\<close> text), or a value of another type (given by
  the name \<open>%T\<close> prints).
\<close>

datatype msg = MsgString string | MsgError string | MsgStringer string | MsgOther string

fun toString :: "msg \<Rightarrow> string" where
  "toString (MsgString v) = v"
| "toString (MsgError v) = v"
| "toString (MsgStringer v) = v"
| "toString (MsgOther T) = ''unable to convert type '' @ T @ '' to string''"

definition L_log :: "L option \<Rightarrow> env \<Rightarrow> int \<Rightarrow> msg \<Rightarrow> any list \<Rightarrow> slog_record outcome" where
  "L_log l e lvl m keyvals =
     (case l of
        None \<Rightarrow> Returned []
      | Some l' \<Rightarrow>
          slog_Log (slogger l') e lvl (toString m)
            (if showCaller l'
             then keyvals @ [slog_String ''caller'' (caller e 3 (callerPrefixTrim l'))]
             else keyvals))"

definition L_Debug :: "L option \<Rightarrow> env \<Rightarrow> msg \<Rightarrow> any list \<Rightarrow> slog_record outcome" where
  "L_Debug l e m keyvals = L_log l e slog_LevelDebug m keyvals"

definition L_Info :: "L option \<Rightarrow> env \<Rightarrow> msg \<Rightarrow> any list \<Rightarrow> slog_record outcome" where
  "L_Info l e m keyvals = L_log l e slog_LevelInfo m keyvals"

definition L_Warn :: "L option \<Rightarrow> env \<Rightarrow> msg \<Rightarrow> any list \<Rightarrow> slog_record outcome" where
  "L_Warn l e m keyvals = L_log l e slog_LevelWarn m keyvals"

definition L_Err :: "L option \<Rightarrow> env \<Rightarrow> msg \<Rightarrow> any list \<Rightarrow> slog_record outcome" where
  "L_Err l e m keyvals = L_log l e slog_LevelError m keyvals"

definition L_Fatal :: "L option \<Rightarrow> env \<Rightarrow> msg \<Rightarrow> any list \<Rightarrow> slog_record outcome" where
  "L_Fatal l e m keyvals = os_Exit (L_log l e LevelFatal m keyvals) 1"

text \<open>
  An \<open>error\<close> is an interface value: nil (\<open>None\<close>), or a value with its \<open>Error()\<close> text
  that may also have the method \<open>WrappedErrors() []error\<close>.
\<close>

datatype error = PlainError string | MultiError string "error option list"

fun Error :: "error \<Rightarrow> string" where
  "Error (PlainError t) = t"
| "Error (MultiError t errs) = t"

text \<open>
  The loop of \<open>LogError\<close> from index \<open>i\<close> on; \<open>e.Error()\<close> on a nil \<open>e\<close> panics.
\<close>

fun range_errs :: "any list \<Rightarrow> nat \<Rightarrow> error option list \<Rightarrow> any list go" where
  "range_errs keyvals i [] = Value keyvals"
| "range_errs keyvals i (None # errs) = Panics"
| "range_errs keyvals i (Some e # errs) =
     range_errs (keyvals @ [slog_String (''error_'' @ Sprintf_02d i) (Error e)]) (Suc i) errs"

definition LogError ::
  "L option \<Rightarrow> env \<Rightarrow> string \<Rightarrow> error option \<Rightarrow> any list \<Rightarrow> slog_record outcome" where
  "LogError l e m err keyvals =
     (case err of
        None \<Rightarrow> Panicked []
      | Some (PlainError t) \<Rightarrow>
          L_log l e slog_LevelError (MsgString m) (keyvals @ [slog_String ''error'' t])
      | Some (MultiError t errs) \<Rightarrow>
          (case range_errs keyvals 0 errs of
             Panics \<Rightarrow> Panicked []
           | Value keyvals' \<Rightarrow> L_log l e slog_LevelError (MsgString m) keyvals'))"

subsection \<open>The first slog revision\<close>

text \<open>
  The revision before had no caller prefix to trim and no leveler: \<open>New\<close> gave the
  handler \<open>ParseLevel(opt.level)\<close> as its \<open>Level\<close>, and the struct \<open>L\<close> had the fields
  \<open>slogger\<close>, \<open>src\<close> and \<open>showCaller\<close>. Its options are those above without the two
  for the caller prefix. \<open>(l *L) New(name)\<close> there is
  \<^verbatim>\<open>&L{src: append(l.src, name), slogger: l.slogger.With(...)}\<close>: the composite literal
  names no \<open>showCaller\<close>, which so takes the zero value.
\<close>

record L_old =
  slogger_old :: slog_Logger
  src_old :: "string list"
  showCaller_old :: bool

definition New_old :: "(int \<times> string) list \<Rightarrow> env \<Rightarrow> string \<Rightarrow> Option list \<Rightarrow> L_old go" where
  "New_old order e arg0 opts =
     (let opt = install_timeFormatter e (apply_opts opts (default_options arg0));
          l = slog_New (ToLower (o_format opt) = FormatJSON) (o_destination opt)
                (Some (ParseLevel order (o_level opt))) (o_timeFormatter opt)
      in case slog_With l (o_keyvals opt @ [slog_String ''src'' (o_name opt)]) of
           Panics \<Rightarrow> Panics
         | Value l' \<Rightarrow>
             Value \<lparr>slogger_old = l', src_old = [o_name opt],
                    showCaller_old = o_showCaller opt\<rparr>)"

definition Default_old :: "(int \<times> string) list \<Rightarrow> env \<Rightarrow> string \<Rightarrow> L_old go" where
  "Default_old order e arg0 = New_old order e arg0 [WithName ''default'', WithFormat FormatLogFmt]"

definition L_New_old :: "L_old option \<Rightarrow> string \<Rightarrow> L_old go" where
  "L_New_old l name =
     (case l of
        None \<Rightarrow> Panics
      | Some l' \<Rightarrow>
          (case slog_With (slogger_old l')
                  [slog_String ''src'' (Join (src_old l' @ [name]) ''.'')] of
             Panics \<Rightarrow> Panics
           | Value s \<Rightarrow>
               Value \<lparr>slogger_old = s, src_old = src_old l' @ [name],
                      showCaller_old = False\<rparr>))"

section \<open>Notions the statements use\<close>


fun is_With :: "Option \<Rightarrow> bool" where
  "is_With (With keyvals) = True"
| "is_With other = False"

text \<open>The arguments \<open>(l *L) log\<close> hands to \<open>slog.Logger.Log\<close> for a non-nil \<open>l\<close>.\<close>

definition call_args :: "L \<Rightarrow> env \<Rightarrow> any list \<Rightarrow> any list" where
  "call_args l e keyvals =
     (if showCaller l
      then keyvals @ [slog_String ''caller'' (caller e 3 (callerPrefixTrim l))]
      else keyvals)"

text \<open>
  \<open>slog\<close> pairs the arguments of a call from the left: an \<open>Attr\<close> stands alone, a string
  takes the argument after it as its value. A list pairs up when that leaves no string
  without a value at its end; when it does not, an attribute appended to the list becomes
  the value of that last string.
\<close>

fun pairs_up :: "any list \<Rightarrow> bool" where
  "pairs_up [] = True"
| "pairs_up (AnyAttr k v # rest) = pairs_up rest"
| "pairs_up [AnyString x] = False"
| "pairs_up (AnyString x # v # rest) = pairs_up rest"
| "pairs_up (x # rest) = pairs_up rest"

text \<open>
  The built-in attributes of a record as the handler writes them, after \<open>ReplaceAttr\<close>:
  the time under \<open>ts\<close>, formatted when the options hold a formatter, the level as its
  name in \<open>levelNames\<close> (as \<open>slog.Level.String\<close> when it has none), and the message.
\<close>

definition level_label :: "int \<Rightarrow> string" where
  "level_label lv =
     (case map_of levelNames lv of None \<Rightarrow> slog_Level_String lv | Some levelLabel \<Rightarrow> levelLabel)"

definition builtins :: "slog_Logger \<Rightarrow> env \<Rightarrow> string \<Rightarrow> string \<Rightarrow> Attr list" where
  "builtins s e label m =
     [(''ts'', case h_timeFormatter s of None \<Rightarrow> AnyTime (now e) | Some f \<Rightarrow> AnyString (f (now e))),
      (''level'', AnyString label), (''msg'', AnyString m)]"

text \<open>The attribute \<open>(l *L) log\<close> appends for the caller, when the logger shows it.\<close>

definition caller_attr :: "L \<Rightarrow> env \<Rightarrow> Attr list" where
  "caller_attr l e =
     (if showCaller l then [(''caller'', AnyString (caller e 3 (callerPrefixTrim l)))] else [])"







subsection \<open>The loggers of the README, as inputs\<close>

definition example_env :: env where
  "example_env =
     \<lparr>now = 0, Local = (\<lambda>t. ''2023-04-21T16:09:00Z''), UTC = (\<lambda>t. ''2023-04-21T16:09:00Z''),
      stack_Caller = (\<lambda>depth. ''main/main.go:11'')\<rparr>"

definition example_kit :: L_kit where
  "example_kit = New_kit levelNames_kit None ''myapp'' ''info'' FormatLogFmt
                   [KString ''somekey'', KString ''someval'']"

definition example_opts :: "Option list" where
  "example_opts =
     [WithDestination Stdout, WithName ''myapp'', WithLevel ''info'', WithFormat FormatLogFmt,
      With [AnyString ''somekey'', AnyString ''someval'']]"

definition example_slogger :: slog_Logger where
  "example_slogger =
     \<lparr>h_json = False, h_writer = Stdout, h_Level = None, h_timeFormatter = None,
      h_attrs = [(''somekey'', AnyString ''someval''), (''src'', AnyString ''myapp'')]\<rparr>"

definition example_L :: L where
  "example_L =
     \<lparr>slogger = example_slogger, src = [''myapp''], showCaller = True, callerPrefixTrim = []\<rparr>"

definition example_sub :: L where
  "example_sub =
     \<lparr>slogger = example_slogger\<lparr>h_attrs :=
                  [(''somekey'', AnyString ''someval''), (''src'', AnyString ''myapp''),
                   (''src'', AnyString ''myapp.sublogger'')]\<rparr>,
      src = [''myapp'', ''sublogger''], showCaller = True, callerPrefixTrim = []\<rparr>"

definition example_grandchild :: L where
  "example_grandchild =
     \<lparr>slogger = example_slogger\<lparr>h_attrs :=
                  [(''somekey'', AnyString ''someval''), (''src'', AnyString ''myapp''),
                   (''src'', AnyString ''myapp.sublogger''),
                   (''src'', AnyString ''myapp.sublogger.grandchild'')]\<rparr>,
      src = [''myapp'', ''sublogger'', ''grandchild''], showCaller = True,
      callerPrefixTrim = []\<rparr>"

definition example_old :: L_old where
  "example_old =
     \<lparr>slogger_old = example_slogger\<lparr>h_Level := Some slog_LevelInfo\<rparr>, src_old = [''myapp''],
      showCaller_old = True\<rparr>"


text \<open>An order of the entries of \<open>levelNames\<close> that starts at \<open>fatal\<close>.\<close>

definition fatal_first :: "(int \<times> string) list" where
  "fatal_first =
     [(LevelFatal, ''fatal''), (LevelAll, ''all''), (slog_LevelError, ''err''),
      (slog_LevelWarn, ''warn''), (slog_LevelInfo, ''info''), (slog_LevelDebug, ''debug'')]"

definition two_With_opts :: "Option list" where
  "two_With_opts =
     [With [AnyString ''key1'', AnyString ''value1''], WithName ''myapp'',
      With [AnyString ''somekey'', AnyString ''someval''], WithFormat FormatLogFmt]"

definition two_errors :: error where
  "two_errors =
     MultiError ''2 errors'' (map Some [PlainError ''some err1'', PlainError ''some err2''])"

definition many_errors :: error where
  "many_errors = MultiError ''101 errors'' (replicate 101 (Some (PlainError ''e'')))"

section \<open>Level parsing\<close>

lemma iteration_order_set: "iteration_order m order \<Longrightarrow> set order = set m"
  unfolding iteration_order_def by (metis set_mset_mset)

lemma iteration_order_refl: "iteration_order m m"
  by (simp add: iteration_order_def)

lemma iteration_order_rev: "iteration_order m (rev m)"
  by (simp add: iteration_order_def)

lemma range_levelNames_Some:
  "range_levelNames order s = Some l \<Longrightarrow> \<exists>name. (l, name) \<in> set order \<and> HasPrefix name s"
  by (induction order s rule: range_levelNames.induct) (auto split: if_splits)

lemma range_levelNames_None:
  "range_levelNames order s = None \<Longrightarrow> (l, name) \<in> set order \<Longrightarrow> \<not> HasPrefix name s"
  by (induction order s rule: range_levelNames.induct) (auto split: if_splits)

text \<open>When one entry matches and every matching entry carries its level, the loop finds it.\<close>

lemma range_levelNames_only:
  assumes "(l, name) \<in> set order" and "HasPrefix name s"
    and "\<And>l' name'. (l', name') \<in> set order \<Longrightarrow> HasPrefix name' s \<Longrightarrow> l' = l"
  shows "range_levelNames order s = Some l"
proof (cases "range_levelNames order s")
  case None
  from range_levelNames_None[OF None assms(1)] assms(2) show ?thesis by simp
next
  case (Some l')
  from range_levelNames_Some[OF Some]
  obtain name' where "(l', name') \<in> set order" "HasPrefix name' s" by auto
  with assms(3) Some show ?thesis by simp
qed

lemma HasPrefix_refl: "HasPrefix s s"
  by (induction s) auto

lemma HasPrefix_Cons: "HasPrefix name (c # cs) \<Longrightarrow> \<exists>rest. name = c # rest"
  by (cases name) auto

lemma ToLower_Nil_iff: "ToLower s = [] \<longleftrightarrow> s = []"
  by (simp add: ToLower_def)

subsection \<open>The go-kit revision\<close>

text \<open>The names start with different letters, so a non-empty prefix belongs to one level.\<close>

lemma first_letters_kit:
  assumes "s \<noteq> []" "(l, name) \<in> set levelNames_kit" "(l', name') \<in> set levelNames_kit"
    "HasPrefix name s" "HasPrefix name' s"
  shows "l' = l"
proof -
  obtain c cs where s: "s = c # cs" using assms(1) by (cases s) auto
  from assms(4,5) s obtain r r' where "name = c # r" "name' = c # r'"
    using HasPrefix_Cons by blast
  with assms(2,3) show ?thesis
    by (auto simp: levelNames_kit_def)
qed

lemma Level_String_in:
  "l \<in> set (map fst levelNames_kit) \<Longrightarrow> (l, Level_String l) \<in> set levelNames_kit"
  by (auto simp: levelNames_kit_def Level_String_def All_level_def Fatal_def Err_def
        Warn_def Info_def Debug_def)

lemma ToLower_canonical_kit:
  "(l, name) \<in> set levelNames_kit \<Longrightarrow> ToLower name = name"
  unfolding levelNames_kit_def by (auto; code_simp)

text \<open>
  C6. For every level \<open>l\<close> that has a name in \<open>levelNames\<close>, parsing its name gives \<open>l\<close>
  back, in whatever order the loop of \<open>ParseLevel\<close> meets the entries of the table.
\<close>

theorem ParseLevel_of_String:
  assumes "iteration_order levelNames_kit order" and "l \<in> set (map fst levelNames_kit)"
  shows "ParseLevel_kit order (Level_String l) = l"
proof -
  let ?name = "Level_String l"
  have inl: "(l, ?name) \<in> set levelNames_kit" using assms(2) by (rule Level_String_in)
  have ne: "?name \<noteq> []" using inl by (auto simp: levelNames_kit_def)
  have so: "set order = set levelNames_kit" using assms(1) by (rule iteration_order_set)
  have "range_levelNames order ?name = Some l"
  proof (rule range_levelNames_only)
    show "(l, ?name) \<in> set order" using inl so by simp
    show "HasPrefix ?name ?name" by (rule HasPrefix_refl)
    fix l' name' assume "(l', name') \<in> set order" "HasPrefix name' ?name"
    then show "l' = l" using first_letters_kit[OF ne inl _ HasPrefix_refl] so by blast
  qed
  then show ?thesis
    by (simp add: ParseLevel_kit_def ToLower_canonical_kit[OF inl])
qed

theorem ParseLevel_of_String_witness:
  "iteration_order levelNames_kit (rev levelNames_kit) \<and>
   Warn \<in> set (map fst levelNames_kit) \<and> Level_String Warn = ''warn'' \<and>
   ParseLevel_kit (rev levelNames_kit) (Level_String Warn) = Warn"
proof -
  have h1: "iteration_order levelNames_kit (rev levelNames_kit)" by (rule iteration_order_rev)
  have h2: "Warn \<in> set (map fst levelNames_kit)" by (simp add: levelNames_kit_def)
  have h3: "Level_String Warn = ''warn''" by code_simp
  from ParseLevel_of_String[OF h1 h2] h1 h2 h3 show ?thesis by simp
qed

subsection \<open>The slog revisions\<close>

lemma first_letters:
  assumes "s \<noteq> []" "(l, name) \<in> set levelNames" "(l', name') \<in> set levelNames"
    "HasPrefix name s" "HasPrefix name' s"
  shows "l' = l"
proof -
  obtain c cs where s: "s = c # cs" using assms(1) by (cases s) auto
  from assms(4,5) s obtain r r' where "name = c # r" "name' = c # r'"
    using HasPrefix_Cons by blast
  with assms(2,3) show ?thesis
    by (auto simp: levelNames_def)
qed

lemma at_most_one_name:
  assumes "s \<noteq> []"
  shows "length (filter (\<lambda>(l, name). HasPrefix name s) levelNames) \<le> 1"
proof -
  obtain c cs where s: "s = c # cs" using assms by (cases s) auto
  consider "c = CHR ''a''" | "c = CHR ''f''" | "c = CHR ''e''" | "c = CHR ''w''"
    | "c = CHR ''i''" | "c = CHR ''d''"
    | "c \<noteq> CHR ''a''" "c \<noteq> CHR ''f''" "c \<noteq> CHR ''e''" "c \<noteq> CHR ''w''"
      "c \<noteq> CHR ''i''" "c \<noteq> CHR ''d''"
    by blast
  then show ?thesis
    unfolding s levelNames_def by cases simp_all
qed

lemma range_levelNames_order_irrelevant:
  assumes "s \<noteq> []" "iteration_order levelNames o1" "iteration_order levelNames o2"
  shows "range_levelNames o1 s = range_levelNames o2 s"
proof -
  have eq: "set o1 = set levelNames" "set o2 = set levelNames"
    using assms(2,3) by (simp_all add: iteration_order_set)
  show ?thesis
  proof (cases "range_levelNames o1 s")
    case None
    show ?thesis
    proof (cases "range_levelNames o2 s")
      case None2: None
      with None show ?thesis by simp
    next
      case (Some l)
      from range_levelNames_Some[OF Some] obtain name where
        "(l, name) \<in> set o2" "HasPrefix name s" by auto
      with eq range_levelNames_None[OF None, of l name] show ?thesis by simp
    qed
  next
    case (Some l)
    from range_levelNames_Some[OF Some] obtain name where
      n: "(l, name) \<in> set o1" "HasPrefix name s" by auto
    show ?thesis
    proof (cases "range_levelNames o2 s")
      case None
      from range_levelNames_None[OF None, of l name] n eq show ?thesis by simp
    next
      case Some2: (Some l')
      from range_levelNames_Some[OF Some2] obtain name' where
        n': "(l', name') \<in> set o2" "HasPrefix name' s" by auto
      have "l' = l" using first_letters[OF assms(1), of l name l' name'] n n' eq by simp
      with Some Some2 show ?thesis by simp
    qed
  qed
qed

text \<open>An input that is a prefix of no name falls through the loop to \<open>LevelAll\<close>.\<close>

lemma ParseLevel_unmatched:
  assumes "iteration_order levelNames order"
    and "\<And>l name. (l, name) \<in> set levelNames \<Longrightarrow> \<not> HasPrefix name (ToLower s)"
  shows "ParseLevel order s = LevelAll"
proof (cases "range_levelNames order (ToLower s)")
  case None
  then show ?thesis by (simp add: ParseLevel_def)
next
  case (Some l)
  from range_levelNames_Some[OF Some] assms(2) iteration_order_set[OF assms(1)]
  show ?thesis by auto
qed

text \<open>
  C7, at the empty input. The empty string is a prefix of every name, so the loop returns
  at the first entry it meets: with the table ranged over from its last entry,
  \<open>ParseLevel ""\<close> is \<open>slog.LevelDebug\<close>, not \<open>LevelAll\<close>.
\<close>

theorem ParseLevel_empty_first_entry:
  "iteration_order levelNames (rev levelNames) \<and>
   ParseLevel (rev levelNames) [] = slog_LevelDebug \<and> slog_LevelDebug \<noteq> LevelAll"
  by (simp add: iteration_order_def ParseLevel_def levelNames_def ToLower_def
        slog_LevelDebug_def LevelAll_def)

text \<open>
  C10. For a non-empty input, at most one entry of \<open>levelNames\<close> has the lower-cased
  input as a prefix of its name, and \<open>ParseLevel\<close> returns the same level in any two
  orders in which the loop may meet the entries. The loop itself does so on every
  non-empty string it is given, whatever \<open>strings.ToLower\<close> made of the input.
\<close>

theorem ParseLevel_order_independent:
  assumes "s \<noteq> []" "iteration_order levelNames o1" "iteration_order levelNames o2"
  shows "length (filter (\<lambda>(l, name). HasPrefix name (ToLower s)) levelNames) \<le> 1 \<and>
         ParseLevel o1 s = ParseLevel o2 s \<and>
         length (filter (\<lambda>(l, name). HasPrefix name s) levelNames) \<le> 1 \<and>
         range_levelNames o1 s = range_levelNames o2 s"
proof -
  have ne: "ToLower s \<noteq> []" using assms(1) by (simp add: ToLower_Nil_iff)
  show ?thesis
    using at_most_one_name[OF ne] range_levelNames_order_irrelevant[OF ne assms(2,3)]
      at_most_one_name[OF assms(1)] range_levelNames_order_irrelevant[OF assms]
    by (simp add: ParseLevel_def)
qed

theorem ParseLevel_order_independent_witness:
  "''WA'' \<noteq> [] \<and> iteration_order levelNames levelNames \<and>
   iteration_order levelNames (rev levelNames) \<and>
   length (filter (\<lambda>(l, name). HasPrefix name (ToLower ''WA'')) levelNames) \<le> 1 \<and>
   ParseLevel levelNames ''WA'' = ParseLevel (rev levelNames) ''WA'' \<and>
   ParseLevel levelNames ''WA'' = slog_LevelWarn"
proof -
  have h1: "''WA'' \<noteq> []" by simp
  have h2: "iteration_order levelNames levelNames" by (rule iteration_order_refl)
  have h3: "iteration_order levelNames (rev levelNames)" by (rule iteration_order_rev)
  have h4: "ParseLevel levelNames ''WA'' = slog_LevelWarn" by code_simp
  from ParseLevel_order_independent[OF h1 h2 h3] h1 h2 h3 h4 show ?thesis by simp
qed

section \<open>Level filtering in the go-kit revision\<close>






lemma install_timeFormatter_keeps:
  "o_keyvals (install_timeFormatter e opt) = o_keyvals opt"
  "o_name (install_timeFormatter e opt) = o_name opt"
  "o_level (install_timeFormatter e opt) = o_level opt"
  "o_showCaller (install_timeFormatter e opt) = o_showCaller opt"
  "o_callerPrefixTrim (install_timeFormatter e opt) = o_callerPrefixTrim opt"
  by (simp_all add: install_timeFormatter_def split: option.splits)

lemma slog_With_attrs:
  assumes "slog_With s args = Value s'" and "args \<noteq> []"
  obtains as where "ReplaceAttrs (h_timeFormatter s) (argsToAttrSlice args) = Value as"
    and "s' = s\<lparr>h_attrs := h_attrs s @ as\<rparr>"
  using assms by (auto simp: slog_With_def split: go.splits)




lemma ToLower_logfmt: "ToLower FormatLogFmt \<noteq> FormatJSON"
  by code_simp

lemma ParseLevel_info: "ParseLevel levelNames ''info'' = slog_LevelInfo"
  by code_simp

lemma example_New_old: "New_old levelNames example_env ''go-logger.test'' example_opts = Value example_old"
  by (simp add: New_old_def example_opts_def example_old_def example_slogger_def example_env_def
      default_options_def install_timeFormatter_def slog_New_def slog_With_def slog_String_def
      ReplaceAttr_def TimeKey_def LevelKey_def ToLower_logfmt ParseLevel_info Let_def)


section \<open>The order of the keys of a record\<close>

subsection \<open>The go-kit revision\<close>













subsection \<open>The slog revisions\<close>




text \<open>What \<open>Log\<close> can do: drop the record, panic in \<open>ReplaceAttr\<close>, or write one record.\<close>

lemma slog_Log_cases:
  obtains (skip) "slog_Log l e lv m args = Returned []"
  | (panic) "slog_Log l e lv m args = Panicked []"
  | (emit) builtins attrs where
      "ReplaceAttrs (h_timeFormatter l)
         [(TimeKey, AnyTime (now e)), (LevelKey, AnyLevel lv), (MessageKey, AnyString m)] =
       Value builtins"
      "ReplaceAttrs (h_timeFormatter l) (argsToAttrSlice args) = Value attrs"
      "slog_Log l e lv m args =
         Returned [\<lparr>r_writer = h_writer l, r_json = h_json l,
                    r_attrs = builtins @ h_attrs l @ attrs\<rparr>]"
proof (cases "Enabled l lv")
  case False
  then show ?thesis using skip by (simp add: slog_Log_def)
next
  case en: True
  show ?thesis
  proof (cases "ReplaceAttrs (h_timeFormatter l)
         [(TimeKey, AnyTime (now e)), (LevelKey, AnyLevel lv), (MessageKey, AnyString m)]")
    case Panics
    then show ?thesis using panic en by (simp add: slog_Log_def del: ReplaceAttrs.simps)
  next
    case b: (Value builtins)
    show ?thesis
    proof (cases "ReplaceAttrs (h_timeFormatter l) (argsToAttrSlice args)")
      case Panics
      then show ?thesis using panic en b by (simp add: slog_Log_def del: ReplaceAttrs.simps)
    next
      case (Value attrs)
      then show ?thesis using emit[of builtins attrs] en b
        by (simp add: slog_Log_def del: ReplaceAttrs.simps)
    qed
  qed
qed


lemma L_log_Some:
  "L_log (Some l) e lv m kv = slog_Log (slogger l) e lv (toString m) (call_args l e kv)"
  by (simp add: L_log_def call_args_def)


text \<open>What \<open>New\<close> made when it returned a logger.\<close>

lemma New_cases:
  assumes "New e prog leveler opts = Value l"
  obtains as where
    "ReplaceAttrs (o_timeFormatter (install_timeFormatter e (apply_opts opts (default_options prog))))
       (argsToAttrSlice (o_keyvals (apply_opts opts (default_options prog)) @
                         [slog_String ''src'' (o_name (apply_opts opts (default_options prog)))])) =
     Value as"
    and "h_attrs (slogger l) = as"
    and "h_timeFormatter (slogger l) =
           o_timeFormatter (install_timeFormatter e (apply_opts opts (default_options prog)))"
    and "L.src l = [o_name (apply_opts opts (default_options prog))]"
    and "showCaller l = o_showCaller (apply_opts opts (default_options prog))"
    and "callerPrefixTrim l = o_callerPrefixTrim (apply_opts opts (default_options prog))"
proof -
  let ?base = "apply_opts opts (default_options prog)"
  let ?opt = "install_timeFormatter e ?base"
  let ?s = "slog_New (ToLower (o_format ?opt) = FormatJSON) (o_destination ?opt)
               leveler (o_timeFormatter ?opt)"
  let ?args = "o_keyvals ?base @ [slog_String ''src'' (o_name ?base)]"
  have unf: "New e prog leveler opts =
      (case slog_With ?s ?args of
         Panics \<Rightarrow> Panics
       | Value l' \<Rightarrow>
           Value \<lparr>slogger = l', src = [o_name ?base], showCaller = o_showCaller ?base,
                  callerPrefixTrim = o_callerPrefixTrim ?base\<rparr>)"
    by (simp add: New_def Let_def install_timeFormatter_keeps split: go.splits)
  obtain s' where s': "slog_With ?s ?args = Value s'"
    and l: "l = \<lparr>slogger = s', src = [o_name ?base], showCaller = o_showCaller ?base,
                  callerPrefixTrim = o_callerPrefixTrim ?base\<rparr>"
  proof (cases "slog_With ?s ?args")
    case Panics
    with assms unf show ?thesis by simp
  next
    case (Value s')
    with assms unf that show ?thesis by simp
  qed
  have ne: "?args \<noteq> []" by simp
  from slog_With_attrs[OF s' ne] obtain as where
    as: "ReplaceAttrs (h_timeFormatter ?s) (argsToAttrSlice ?args) = Value as"
    and sa: "s' = ?s\<lparr>h_attrs := h_attrs ?s @ as\<rparr>" by blast
  have tf: "h_timeFormatter ?s = o_timeFormatter ?opt" and em: "h_attrs ?s = []"
    by (simp_all add: slog_New_def)
  have a1: "ReplaceAttrs (o_timeFormatter ?opt) (argsToAttrSlice ?args) = Value as"
    using as unfolding tf .
  have a2: "h_attrs (slogger l) = as" unfolding l sa em by simp
  have a3: "h_timeFormatter (slogger l) = o_timeFormatter ?opt" unfolding l sa by (simp add: tf)
  show ?thesis
    by (rule that[OF a1 a2 a3]) (simp_all add: l)
qed


text \<open>
  \<open>(l *L) New(name)\<close> binds one more \<open>src\<close>, the segments joined with dots, after the
  attributes of the parent, and copies \<open>showCaller\<close> and \<open>callerPrefixTrim\<close>.
\<close>

lemma slog_With_src:
  "slog_With s [slog_String ''src'' v] =
     Value (s\<lparr>h_attrs := h_attrs s @ [(''src'', AnyString v)]\<rparr>)"
  by (simp add: slog_With_def slog_String_def ReplaceAttr_def TimeKey_def LevelKey_def)

lemma L_New_child:
  "L_New (Some P) n =
     Value \<lparr>slogger = (slogger P)\<lparr>h_attrs := h_attrs (slogger P) @
                                      [(''src'', AnyString (Join (L.src P @ [n]) ''.''))]\<rparr>,
            src = L.src P @ [n], showCaller = showCaller P,
            callerPrefixTrim = callerPrefixTrim P\<rparr>"
  by (simp add: L_New_def slog_With_src)

subsection \<open>Lists of arguments that pair up\<close>

lemma argsToAttrSlice_append:
  "pairs_up xs \<Longrightarrow> argsToAttrSlice (xs @ ys) = argsToAttrSlice xs @ argsToAttrSlice ys"
  by (induction xs rule: pairs_up.induct) auto

lemma pairs_up_snoc_Attr: "pairs_up xs \<Longrightarrow> pairs_up (xs @ [AnyAttr k v])"
  by (induction xs rule: pairs_up.induct) auto

lemma pairs_up_append: "pairs_up xs \<Longrightarrow> pairs_up ys \<Longrightarrow> pairs_up (xs @ ys)"
  by (induction xs rule: pairs_up.induct) auto

subsection \<open>Derived loggers\<close>











lemma example_New: "New example_env ''go-logger.test'' None example_opts = Value example_L"
  by (simp add: New_def example_opts_def example_L_def example_slogger_def example_env_def
      default_options_def install_timeFormatter_def slog_New_def slog_With_def slog_String_def
      ReplaceAttr_def TimeKey_def LevelKey_def ToLower_logfmt Let_def)


lemma example_kit_Info:
  "written (leveled_kit Info (Some example_kit) example_env (KString ''some message'')
      [KString ''anotherkey'', KString ''another value'']) =
   [\<lparr>rec_writer = Stdout, rec_format = FormatLogFmt,
     rec_keyvals =
       [KString ''ts'', KString ''2023-04-21T16:09:00Z'',
        KString ''caller'', KString ''main/main.go:11'',
        KString ''somekey'', KString ''someval'', KString ''src'', KString ''myapp'',
        KString ''level'', KString ''info'', KString ''msg'', KString ''some message'',
        KString ''anotherkey'', KString ''another value'']\<rparr>]"
  by code_simp







section \<open>Calls on a nil handle\<close>

lemma L_log_nil: "L_log None e lv m kv = Returned []"
  by (simp add: L_log_def)

lemma range_errs_Some:
  "range_errs kv i (map Some errs) =
     Value (kv @ map (\<lambda>(j, err). slog_String (''error_'' @ Sprintf_02d j) (Error err))
                   (enumerate i errs))"
  by (induction errs arbitrary: kv i) simp_all

text \<open>
  C2, as amended. On a nil handle \<open>Debug\<close>, \<open>Info\<close>, \<open>Warn\<close> and \<open>Err\<close> return without
  writing, and so does \<open>LogError\<close> when given an error that is not nil and whose wrapped
  errors are not nil; \<open>Fatal\<close> writes nothing and ends the process with status 1.
\<close>

theorem nil_handle_calls:
  "L_Debug None e m kv = Returned [] \<and> L_Info None e m kv = Returned [] \<and>
   L_Warn None e m kv = Returned [] \<and> L_Err None e m kv = Returned [] \<and>
   LogError None e s (Some (PlainError t)) kv = Returned [] \<and>
   LogError None e s (Some (MultiError t (map Some errs))) kv = Returned [] \<and>
   L_Fatal None e m kv = Exited [] 1"
  by (simp add: L_Debug_def L_Info_def L_Warn_def L_Err_def L_Fatal_def LogError_def
      L_log_nil range_errs_Some)

theorem nil_handle_calls_witness:
  "L_Info None example_env (MsgString ''foo'') [AnyString ''key2'', AnyString ''value2''] =
     Returned [] \<and>
   LogError None example_env ''some error'' (Some two_errors) [] = Returned [] \<and>
   L_Fatal None example_env (MsgString ''foo'') [] = Exited [] 1"
  using nil_handle_calls[where e = example_env and m = "MsgString ''foo''"
      and kv = "[AnyString ''key2'', AnyString ''value2'']"]
    nil_handle_calls[where e = example_env and s = "''some error''" and t = "''2 errors''"
      and errs = "[PlainError ''some err1'', PlainError ''some err2'']" and kv = "[]"
      and m = "MsgString ''foo''"]
  by (simp add: two_errors_def)

text \<open>
  C2 as stated fails at \<open>Fatal\<close>: on a nil handle it is not a call without effect, it
  ends the process.
\<close>

theorem Fatal_on_nil_exits:
  "L_Fatal None example_env (MsgString ''foo'') [] = Exited [] 1 \<and>
   L_Fatal None example_env (MsgString ''foo'') [] \<noteq> Returned []"
  by (simp add: L_Fatal_def L_log_nil)

section \<open>Fatal\<close>

lemma L_log_not_Exited: "L_log l e lv m kv \<noteq> Exited ws n"
proof (cases l)
  case None
  then show ?thesis by (simp add: L_log_def)
next
  case (Some l')
  have "slog_Log (slogger l') e lv (toString m) (call_args l' e kv) \<noteq> Exited ws n"
    by (cases rule: slog_Log_cases[of "slogger l'" e lv "toString m" "call_args l' e kv"])
      simp_all
  with Some show ?thesis by (simp add: L_log_Some)
qed

lemma builtins_level:
  assumes "ReplaceAttrs tf [(TimeKey, AnyTime t), (LevelKey, AnyLevel lv), (MessageKey, AnyString m)]
             = Value bs"
  shows "length bs = 3 \<and> bs ! 1 =
     (''level'', AnyString (case map_of levelNames lv of
                              None \<Rightarrow> slog_Level_String lv | Some levelLabel \<Rightarrow> levelLabel))"
  using assms
  by (auto simp: ReplaceAttr_def TimeKey_def LevelKey_def MessageKey_def
      split: go.splits option.splits)

lemma slog_Log_level:
  assumes "r \<in> set (written (slog_Log l e lv m args))"
  shows "r_attrs r ! 1 =
     (''level'', AnyString (case map_of levelNames lv of
                              None \<Rightarrow> slog_Level_String lv | Some levelLabel \<Rightarrow> levelLabel))"
proof (cases rule: slog_Log_cases[of l e lv m args])
  case skip
  with assms show ?thesis by simp
next
  case panic
  with assms show ?thesis by simp
next
  case (emit builtins attrs)
  from assms emit(3) have "r_attrs r = builtins @ h_attrs l @ attrs" by simp
  with builtins_level[OF emit(1)] show ?thesis by (simp add: nth_append)
qed

lemma L_log_level:
  assumes "r \<in> set (written (L_log l e lv m kv))"
  shows "r_attrs r ! 1 =
     (''level'', AnyString (case map_of levelNames lv of
                              None \<Rightarrow> slog_Level_String lv | Some levelLabel \<Rightarrow> levelLabel))"
proof (cases l)
  case None
  with assms show ?thesis by (simp add: L_log_def)
next
  case (Some l')
  with assms slog_Log_level show ?thesis by (simp add: L_log_Some)
qed

lemma Fatal_label: "map_of levelNames LevelFatal = Some ''fatal''"
  by (simp add: levelNames_def LevelFatal_def LevelAll_def)

text \<open>
  \<open>ReplaceAttr\<close> leaves an attribute as it is unless its key is \<open>time\<close> or \<open>level\<close>, and
  never panics on the three built-in attributes; so a call none of whose attributes is
  keyed \<open>time\<close> or \<open>level\<close> returns.
\<close>

lemma ReplaceAttrs_unreserved:
  "\<forall>a \<in> set as. fst a \<noteq> TimeKey \<and> fst a \<noteq> LevelKey \<Longrightarrow> ReplaceAttrs tf as = Value as"
  by (induction as) (auto simp: ReplaceAttr_def)

lemma ReplaceAttrs_builtins_Value:
  "\<exists>bs. ReplaceAttrs tf [(TimeKey, AnyTime t), (LevelKey, AnyLevel lv), (MessageKey, AnyString m)]
          = Value bs"
  by (auto simp: ReplaceAttr_def TimeKey_def LevelKey_def MessageKey_def split: option.splits)

lemma slog_Log_returns:
  assumes "\<forall>a \<in> set (argsToAttrSlice args). fst a \<noteq> TimeKey \<and> fst a \<noteq> LevelKey"
  shows "\<exists>ws. slog_Log l e lv m args = Returned ws"
proof (cases rule: slog_Log_cases[of l e lv m args])
  case skip
  then show ?thesis by simp
next
  case (emit builtins attrs)
  then show ?thesis by simp
next
  case panic
  obtain bs where bs: "ReplaceAttrs (h_timeFormatter l)
      [(TimeKey, AnyTime (now e)), (LevelKey, AnyLevel lv), (MessageKey, AnyString m)] = Value bs"
    using ReplaceAttrs_builtins_Value by blast
  have as: "ReplaceAttrs (h_timeFormatter l) (argsToAttrSlice args) = Value (argsToAttrSlice args)"
    using assms by (rule ReplaceAttrs_unreserved)
  from panic bs as show ?thesis
    by (simp add: slog_Log_def del: ReplaceAttrs.simps split: if_splits)
qed

subsection \<open>The record a call writes\<close>

lemma ReplaceAttrs_append:
  "ReplaceAttrs tf as = Value bs \<Longrightarrow> ReplaceAttrs tf cs = Value ds \<Longrightarrow>
   ReplaceAttrs tf (as @ cs) = Value (bs @ ds)"
  by (induction as arbitrary: bs) (auto split: go.splits)

lemma ReplaceAttrs_builtins_eq:
  "ReplaceAttrs (h_timeFormatter s)
     [(TimeKey, AnyTime (now e)), (LevelKey, AnyLevel lv), (MessageKey, AnyString m)] =
   Value (builtins s e (level_label lv) m)"
  by (simp add: ReplaceAttr_def builtins_def level_label_def TimeKey_def LevelKey_def
      MessageKey_def split: option.splits)

lemma caller_attr_args:
  "argsToAttrSlice (if showCaller l
                    then [slog_String ''caller'' (caller e 3 (callerPrefixTrim l))] else []) =
   caller_attr l e"
  by (simp add: caller_attr_def slog_String_def)

lemma caller_attr_unreserved:
  "\<forall>a \<in> set (caller_attr l e). fst a \<noteq> TimeKey \<and> fst a \<noteq> LevelKey"
  by (simp add: caller_attr_def TimeKey_def LevelKey_def)

text \<open>
  On a logger that is not nil, when \<open>ReplaceAttr\<close> lets the attributes of the call
  through as \<open>attrs\<close>, \<open>log\<close> writes one record if the handler is enabled at the level and
  none otherwise, and returns; the record holds the built-in attributes, those bound to
  the handler, and \<open>attrs\<close>.
\<close>

lemma L_log_attrs:
  assumes "ReplaceAttrs (h_timeFormatter (slogger l)) (argsToAttrSlice (call_args l e kv)) =
             Value attrs"
  shows "L_log (Some l) e lv m kv =
     (if Enabled (slogger l) lv
      then Returned [\<lparr>r_writer = h_writer (slogger l), r_json = h_json (slogger l),
                      r_attrs = builtins (slogger l) e (level_label lv) (toString m) @
                                h_attrs (slogger l) @ attrs\<rparr>]
      else Returned [])"
  using assms unfolding L_log_Some
  by (simp add: slog_Log_def ReplaceAttrs_builtins_eq del: ReplaceAttrs.simps)

text \<open>
  When the fields of the call pair up, its attributes are those of the fields, as
  \<open>ReplaceAttr\<close> leaves them, and then the caller.
\<close>

lemma L_log_record:
  assumes "pairs_up kv"
    and "ReplaceAttrs (h_timeFormatter (slogger l)) (argsToAttrSlice kv) = Value fs"
  shows "L_log (Some l) e lv m kv =
     (if Enabled (slogger l) lv
      then Returned [\<lparr>r_writer = h_writer (slogger l), r_json = h_json (slogger l),
                      r_attrs = builtins (slogger l) e (level_label lv) (toString m) @
                                h_attrs (slogger l) @ fs @ caller_attr l e\<rparr>]
      else Returned [])"
proof -
  have args: "call_args l e kv =
      kv @ (if showCaller l then [slog_String ''caller'' (caller e 3 (callerPrefixTrim l))] else [])"
    by (simp add: call_args_def)
  have "argsToAttrSlice (call_args l e kv) = argsToAttrSlice kv @ caller_attr l e"
    unfolding args argsToAttrSlice_append[OF assms(1)] caller_attr_args ..
  moreover have "ReplaceAttrs (h_timeFormatter (slogger l)) (caller_attr l e) =
      Value (caller_attr l e)"
    using caller_attr_unreserved by (rule ReplaceAttrs_unreserved)
  ultimately have "ReplaceAttrs (h_timeFormatter (slogger l)) (argsToAttrSlice (call_args l e kv)) =
      Value (fs @ caller_attr l e)"
    using ReplaceAttrs_append[OF assms(2)] by simp
  from L_log_attrs[OF this] show ?thesis by simp
qed

lemma level_label_err: "level_label slog_LevelError = ''err''"
  by (simp add: level_label_def levelNames_def LevelFatal_def LevelAll_def slog_LevelError_def)

lemma level_label_fatal: "level_label LevelFatal = ''fatal''"
  by (simp add: level_label_def Fatal_label)

subsection \<open>Fatal\<close>

lemma Fatal_after_log:
  "(L_Fatal l e m kv = Exited ws n \<longrightarrow> n = 1 \<and> L_log l e LevelFatal m kv = Returned ws) \<and>
   L_Fatal l e m kv \<noteq> Returned ws'"
proof (intro conjI impI)
  assume a: "L_Fatal l e m kv = Exited ws n"
  then show "n = 1"
    using L_log_not_Exited[of l e LevelFatal m kv]
    by (cases "L_log l e LevelFatal m kv") (auto simp: L_Fatal_def)
  from a show "L_log l e LevelFatal m kv = Returned ws"
    using L_log_not_Exited[of l e LevelFatal m kv]
    by (cases "L_log l e LevelFatal m kv") (auto simp: L_Fatal_def)
next
  show "L_Fatal l e m kv \<noteq> Returned ws'"
    by (cases "L_log l e LevelFatal m kv") (auto simp: L_Fatal_def)
qed

lemma ParseLevel_at_most_LevelFatal:
  assumes "iteration_order levelNames order"
  shows "ParseLevel order s \<le> LevelFatal"
proof (cases "range_levelNames order (ToLower s)")
  case None
  then show ?thesis by (simp add: ParseLevel_def LevelAll_def LevelFatal_def)
next
  case (Some l)
  from range_levelNames_Some[OF Some] iteration_order_set[OF assms]
  have "l \<in> fst ` set levelNames" by force
  then have "l \<le> LevelFatal"
    by (auto simp: levelNames_def LevelAll_def LevelFatal_def slog_LevelError_def
        slog_LevelWarn_def slog_LevelInfo_def slog_LevelDebug_def)
  with Some show ?thesis by (simp add: ParseLevel_def)
qed

text \<open>
  C9, as amended. Of a call of \<open>Fatal\<close> whose attributes \<open>ReplaceAttr\<close> lets through, as
  it does unchanged when none is keyed \<open>time\<close> or \<open>level\<close>: on a logger that is not nil
  and whose handler is enabled at \<open>LevelFatal\<close>, \<open>log\<close> writes one record, at the level
  \<open>fatal\<close> and with the message, and after it the process ends with status 1; on a logger
  that is nil, or whose handler is not enabled there, nothing is written and the process
  ends with status 1 all the same. The handler is enabled at \<open>LevelFatal\<close> when it has no
  threshold of its own and when its threshold is a level \<open>ParseLevel\<close> returned;
  \<open>LevelFatal\<close> lies above \<open>slog.LevelError\<close>. On any call, \<open>Fatal\<close> does not return,
  and when it ends the process through \<open>os.Exit\<close> the status is 1 and \<open>log\<close> has returned
  before, having written what is written.
\<close>

theorem Fatal_writes_then_exits:
  "(ReplaceAttrs (h_timeFormatter (slogger l)) (argsToAttrSlice (call_args l e kv)) = Value attrs \<longrightarrow>
      L_Fatal (Some l) e m kv =
        (if Enabled (slogger l) LevelFatal
         then Exited [\<lparr>r_writer = h_writer (slogger l), r_json = h_json (slogger l),
                       r_attrs = builtins (slogger l) e ''fatal'' (toString m) @
                                 h_attrs (slogger l) @ attrs\<rparr>] 1
         else Exited [] 1)) \<and>
   ((\<forall>a \<in> set (argsToAttrSlice (call_args l e kv)). fst a \<noteq> TimeKey \<and> fst a \<noteq> LevelKey) \<longrightarrow>
      ReplaceAttrs (h_timeFormatter (slogger l)) (argsToAttrSlice (call_args l e kv)) =
      Value (argsToAttrSlice (call_args l e kv))) \<and>
   L_Fatal None e m kv = Exited [] 1 \<and>
   (h_Level (slogger l) = None \<longrightarrow> Enabled (slogger l) LevelFatal) \<and>
   (iteration_order levelNames order \<and> h_Level (slogger l) = Some (ParseLevel order s) \<longrightarrow>
      Enabled (slogger l) LevelFatal) \<and>
   slog_LevelError < LevelFatal \<and>
   (L_Fatal l' e m kv = Exited ws n \<longrightarrow> n = 1 \<and> L_log l' e LevelFatal m kv = Returned ws) \<and>
   L_Fatal l' e m kv \<noteq> Returned ws'"
proof (intro conjI impI)
  assume "ReplaceAttrs (h_timeFormatter (slogger l)) (argsToAttrSlice (call_args l e kv)) =
            Value attrs"
  from L_log_attrs[OF this]
  show "L_Fatal (Some l) e m kv =
       (if Enabled (slogger l) LevelFatal
        then Exited [\<lparr>r_writer = h_writer (slogger l), r_json = h_json (slogger l),
                      r_attrs = builtins (slogger l) e ''fatal'' (toString m) @
                                h_attrs (slogger l) @ attrs\<rparr>] 1
        else Exited [] 1)"
    by (simp add: L_Fatal_def level_label_fatal)
next
  assume "\<forall>a \<in> set (argsToAttrSlice (call_args l e kv)). fst a \<noteq> TimeKey \<and> fst a \<noteq> LevelKey"
  then show "ReplaceAttrs (h_timeFormatter (slogger l)) (argsToAttrSlice (call_args l e kv)) =
      Value (argsToAttrSlice (call_args l e kv))"
    by (rule ReplaceAttrs_unreserved)
next
  show "L_Fatal None e m kv = Exited [] 1" by (simp add: L_Fatal_def L_log_nil)
next
  assume "h_Level (slogger l) = None"
  then show "Enabled (slogger l) LevelFatal"
    by (simp add: Enabled_def slog_LevelInfo_def LevelFatal_def)
next
  assume "iteration_order levelNames order \<and> h_Level (slogger l) = Some (ParseLevel order s)"
  then show "Enabled (slogger l) LevelFatal"
    using ParseLevel_at_most_LevelFatal[of order s] by (simp add: Enabled_def)
next
  show "slog_LevelError < LevelFatal" by (simp add: slog_LevelError_def LevelFatal_def)
next
  assume a: "L_Fatal l' e m kv = Exited ws n"
  from a Fatal_after_log[of l' e m kv ws n] show "n = 1" by simp
  from a Fatal_after_log[of l' e m kv ws n] show "L_log l' e LevelFatal m kv = Returned ws"
    by simp
next
  from Fatal_after_log[of l' e m kv] show "L_Fatal l' e m kv \<noteq> Returned ws'" by simp
qed

lemma example_call_args:
  "ReplaceAttrs (h_timeFormatter (slogger example_L))
     (argsToAttrSlice (call_args example_L example_env [AnyString ''k'', AnyString ''v''])) =
   Value [(''k'', AnyString ''v''), (''caller'', AnyString ''main/main.go:11'')]"
  by (simp add: call_args_def example_L_def example_slogger_def example_env_def caller_def
      slog_String_def ReplaceAttr_def TimeKey_def LevelKey_def)

theorem Fatal_writes_then_exits_witness:
  "ReplaceAttrs (h_timeFormatter (slogger example_L))
     (argsToAttrSlice (call_args example_L example_env [AnyString ''k'', AnyString ''v''])) =
   Value [(''k'', AnyString ''v''), (''caller'', AnyString ''main/main.go:11'')] \<and>
   L_Fatal (Some example_L) example_env (MsgString ''boom'') [AnyString ''k'', AnyString ''v''] =
   Exited [\<lparr>r_writer = Stdout, r_json = False,
             r_attrs = [(''ts'', AnyTime 0), (''level'', AnyString ''fatal''),
                        (''msg'', AnyString ''boom''),
                        (''somekey'', AnyString ''someval''), (''src'', AnyString ''myapp''),
                        (''k'', AnyString ''v''),
                        (''caller'', AnyString ''main/main.go:11'')]\<rparr>] 1"
proof -
  have en: "Enabled (slogger example_L) LevelFatal"
    by (simp add: Enabled_def example_L_def example_slogger_def slog_LevelInfo_def LevelFatal_def)
  from Fatal_writes_then_exits[where l = example_L and e = example_env
      and kv = "[AnyString ''k'', AnyString ''v'']"
      and attrs = "[(''k'', AnyString ''v''), (''caller'', AnyString ''main/main.go:11'')]"
      and m = "MsgString ''boom''"] example_call_args en
  have "L_Fatal (Some example_L) example_env (MsgString ''boom'')
          [AnyString ''k'', AnyString ''v''] =
        Exited [\<lparr>r_writer = h_writer (slogger example_L), r_json = h_json (slogger example_L),
                  r_attrs = builtins (slogger example_L) example_env ''fatal'' ''boom'' @
                            h_attrs (slogger example_L) @
                            [(''k'', AnyString ''v''),
                             (''caller'', AnyString ''main/main.go:11'')]\<rparr>] 1"
    by simp
  then show ?thesis
    by (simp add: example_call_args)
      (simp add: builtins_def example_L_def example_slogger_def example_env_def)
qed

text \<open>
  In the go-kit revision a field keyed \<open>level\<close> is a pair like any other: for the call
  \<open>Fatal("boom", "level", "high")\<close> the logger of the README writes the record, with the
  key twice, and ends the process with status 1.
\<close>

lemma Fatal_kit_level_key:
  "L_Fatal_kit (Some example_kit) example_env (KString ''boom'')
     [KString ''level'', KString ''high''] =
   Exited [\<lparr>rec_writer = Stdout, rec_format = FormatLogFmt,
             rec_keyvals =
               [KString ''ts'', KString ''2023-04-21T16:09:00Z'',
                KString ''caller'', KString ''main/main.go:11'',
                KString ''somekey'', KString ''someval'', KString ''src'', KString ''myapp'',
                KString ''level'', KString ''fatal'', KString ''msg'', KString ''boom'',
                KString ''level'', KString ''high'']\<rparr>] 1"
  by code_simp

text \<open>
  C9 as stated fails on a nil handle: the guard of \<open>log\<close> returns before anything is
  written, so \<open>Fatal\<close> ends the process without a record. It also fails, for the logger
  of the README, at \<open>Fatal("boom", "level", "high")\<close>: the handler gives the attribute
  \<open>level=high\<close> to the \<open>ReplaceAttr\<close> closure of \<open>New\<close>, whose assertion
  \<open>a.Value.Any().(slog.Level)\<close> panics on the string, so \<open>log\<close> does not return, no record
  is written and \<open>os.Exit(1)\<close> is not reached.
\<close>

theorem Fatal_without_record:
  "L_Fatal None example_env (MsgString ''boom'') [] = Exited [] 1 \<and>
   written (L_Fatal None example_env (MsgString ''boom'') []) = [] \<and>
   New example_env ''go-logger.test'' None example_opts = Value example_L \<and>
   L_Fatal (Some example_L) example_env (MsgString ''boom'')
     [AnyString ''level'', AnyString ''high''] = Panicked []"
  by (simp add: example_New L_log_nil)
    (simp add: L_Fatal_def L_log_def slog_Log_def Enabled_def example_L_def example_slogger_def
      example_env_def slog_String_def caller_def ReplaceAttr_def TimeKey_def LevelKey_def
      MessageKey_def levelNames_def slog_LevelInfo_def slog_LevelWarn_def slog_LevelError_def
      slog_LevelDebug_def LevelAll_def LevelFatal_def)

section \<open>LogError\<close>

lemma digit_0: "digit 0 = CHR ''0''"
  by code_simp

lemma Sprintf_02d_two_digits:
  assumes "i < 100"
  shows "Sprintf_02d i = [digit (i div 10), digit (i mod 10)]"
proof (cases "i < 10")
  case True
  then show ?thesis by (simp add: Sprintf_02d_def itoa.simps[of i] digit_0)
next
  case False
  with assms have "i div 10 < 10" by simp
  with False show ?thesis
    by (simp add: Sprintf_02d_def itoa.simps[of i] itoa.simps[of "i div 10"])
qed

lemma itoa_nonempty: "length (itoa k) \<ge> 1"
  by (cases "k < 10") (simp_all add: itoa.simps[of k])

lemma Sprintf_02d_more_digits:
  assumes "100 \<le> i"
  shows "length (Sprintf_02d i) \<ge> 3"
proof -
  from assms have a: "\<not> i < 10" "\<not> i div 10 < 10" by simp_all
  have "length (itoa i) = length (itoa (i div 10 div 10)) + 2"
    using a by (simp add: itoa.simps[of i] itoa.simps[of "i div 10"])
  with itoa_nonempty[of "i div 10 div 10"] a show ?thesis
    by (simp add: Sprintf_02d_def)
qed

lemma Err_label: "map_of levelNames slog_LevelError = Some ''err''"
  by (simp add: levelNames_def LevelFatal_def LevelAll_def slog_LevelError_def)

lemma LogError_level:
  assumes "r \<in> set (written (LogError l e m err kv))"
  shows "r_attrs r ! 1 = (''level'', AnyString ''err'')"
proof -
  from assms obtain args where "r \<in> set (written (L_log l e slog_LevelError (MsgString m) args))"
    by (auto simp: LogError_def split: option.splits error.splits go.splits)
  from L_log_level[OF this] show ?thesis by (simp add: Err_label)
qed

lemma Sprintf_02d_examples:
  "Sprintf_02d 0 = ''00''" "Sprintf_02d 1 = ''01''" "Sprintf_02d (Suc 0) = ''01''"
  "Sprintf_02d 7 = ''07''" "Sprintf_02d 100 = ''100''"
  by code_simp+

lemma Sprintf_02d_nonempty: "Sprintf_02d i \<noteq> []"
  using itoa_nonempty[of i] by (auto simp: Sprintf_02d_def)

text \<open>The attributes \<open>LogError\<close> appends stand alone and pass \<open>ReplaceAttr\<close> unchanged.\<close>

lemma argsToAttrSlice_errs:
  "argsToAttrSlice (map (\<lambda>(i, err). slog_String (''error_'' @ Sprintf_02d i) (Error err)) xs) =
   map (\<lambda>(i, err). (''error_'' @ Sprintf_02d i, AnyString (Error err))) xs"
  by (induction xs) (auto simp: slog_String_def)

lemma pairs_up_errs:
  "pairs_up (map (\<lambda>(i, err). slog_String (''error_'' @ Sprintf_02d i) (Error err)) xs)"
  by (induction xs) (auto simp: slog_String_def)

lemma ReplaceAttrs_errs:
  "ReplaceAttrs tf (map (\<lambda>(i, err). (''error_'' @ Sprintf_02d i, AnyString (Error err))) xs) =
   Value (map (\<lambda>(i, err). (''error_'' @ Sprintf_02d i, AnyString (Error err))) xs)"
  by (rule ReplaceAttrs_unreserved) (auto simp: TimeKey_def LevelKey_def)

text \<open>
  C4, as amended. Of a call \<open>LogError(msg, err, fields...)\<close> on a logger that is not nil,
  with an error that is not nil and whose wrapped errors are not nil, and with fields
  that pair up and that \<open>ReplaceAttr\<close> lets through as \<open>fs\<close> (unchanged, when none is
  keyed \<open>time\<close> or \<open>level\<close>): it writes one record when the handler is enabled at
  \<open>slog.LevelError\<close> and none otherwise. The record carries the level \<open>err\<close> and the
  message, and after the built-in attributes and those bound to the logger it holds the
  caller's fields, then, for an error with wrapped errors, one attribute for each, in the
  order of the list, keyed \<open>error_\<close> and the index under \<open>%02d\<close> and valued its \<open>Error()\<close>
  text, none of them keyed \<open>error\<close>; for any other error, the one attribute \<open>error\<close> with
  its text; then the caller, when the logger shows it. Under \<open>%02d\<close> an index below 100
  is two digits, padded with a zero, and an index from 100 on is three digits or more.
\<close>

theorem LogError_record:
  "(pairs_up kv \<and>
    ReplaceAttrs (h_timeFormatter (slogger l)) (argsToAttrSlice kv) = Value fs \<longrightarrow>
      LogError (Some l) e m (Some (PlainError t)) kv =
        (if Enabled (slogger l) slog_LevelError
         then Returned [\<lparr>r_writer = h_writer (slogger l), r_json = h_json (slogger l),
                         r_attrs = builtins (slogger l) e ''err'' m @ h_attrs (slogger l) @ fs @
                                   [(''error'', AnyString t)] @ caller_attr l e\<rparr>]
         else Returned []) \<and>
      LogError (Some l) e m (Some (MultiError t (map Some errs))) kv =
        (if Enabled (slogger l) slog_LevelError
         then Returned [\<lparr>r_writer = h_writer (slogger l), r_json = h_json (slogger l),
                         r_attrs = builtins (slogger l) e ''err'' m @ h_attrs (slogger l) @ fs @
                                   map (\<lambda>(i, err). (''error_'' @ Sprintf_02d i, AnyString (Error err)))
                                       (enumerate 0 errs) @
                                   caller_attr l e\<rparr>]
         else Returned [])) \<and>
   ((\<forall>a \<in> set (argsToAttrSlice kv). fst a \<noteq> TimeKey \<and> fst a \<noteq> LevelKey) \<longrightarrow>
      ReplaceAttrs (h_timeFormatter (slogger l)) (argsToAttrSlice kv) =
      Value (argsToAttrSlice kv)) \<and>
   (\<forall>j. ''error_'' @ Sprintf_02d j \<noteq> ''error'') \<and>
   (i < 100 \<longrightarrow> Sprintf_02d i = [digit (i div 10), digit (i mod 10)]) \<and>
   (100 \<le> i \<longrightarrow> 3 \<le> length (Sprintf_02d i))"
proof (intro conjI impI allI)
  assume a: "pairs_up kv \<and>
    ReplaceAttrs (h_timeFormatter (slogger l)) (argsToAttrSlice kv) = Value fs"
  then have p: "pairs_up kv"
    and r: "ReplaceAttrs (h_timeFormatter (slogger l)) (argsToAttrSlice kv) = Value fs"
    by simp_all
  let ?tf = "h_timeFormatter (slogger l)"
  let ?one = "[slog_String ''error'' t]"
  have p1: "pairs_up (kv @ ?one)"
    using p by (simp add: slog_String_def pairs_up_snoc_Attr)
  have "ReplaceAttrs ?tf [(''error'', AnyString t)] = Value [(''error'', AnyString t)]"
    by (simp add: ReplaceAttr_def TimeKey_def LevelKey_def)
  with ReplaceAttrs_append[OF r]
  have r1: "ReplaceAttrs ?tf (argsToAttrSlice (kv @ ?one)) = Value (fs @ [(''error'', AnyString t)])"
    by (simp add: argsToAttrSlice_append[OF p] slog_String_def)
  show "LogError (Some l) e m (Some (PlainError t)) kv =
       (if Enabled (slogger l) slog_LevelError
        then Returned [\<lparr>r_writer = h_writer (slogger l), r_json = h_json (slogger l),
                        r_attrs = builtins (slogger l) e ''err'' m @ h_attrs (slogger l) @ fs @
                                  [(''error'', AnyString t)] @ caller_attr l e\<rparr>]
        else Returned [])"
    using L_log_record[OF p1 r1, of e slog_LevelError "MsgString m"]
    by (simp add: LogError_def level_label_err)
  let ?many = "map (\<lambda>(i, err). slog_String (''error_'' @ Sprintf_02d i) (Error err))
                 (enumerate 0 errs)"
  let ?attrs = "map (\<lambda>(i, err). (''error_'' @ Sprintf_02d i, AnyString (Error err)))
                 (enumerate 0 errs)"
  have p2: "pairs_up (kv @ ?many)"
    using p pairs_up_errs by (rule pairs_up_append)
  have r2: "ReplaceAttrs ?tf (argsToAttrSlice (kv @ ?many)) = Value (fs @ ?attrs)"
    unfolding argsToAttrSlice_append[OF p] argsToAttrSlice_errs
    using r ReplaceAttrs_errs by (rule ReplaceAttrs_append)
  show "LogError (Some l) e m (Some (MultiError t (map Some errs))) kv =
       (if Enabled (slogger l) slog_LevelError
        then Returned [\<lparr>r_writer = h_writer (slogger l), r_json = h_json (slogger l),
                        r_attrs = builtins (slogger l) e ''err'' m @ h_attrs (slogger l) @ fs @
                                  ?attrs @ caller_attr l e\<rparr>]
        else Returned [])"
    using L_log_record[OF p2 r2, of e slog_LevelError "MsgString m"]
    by (simp add: LogError_def range_errs_Some level_label_err)
next
  assume "\<forall>a \<in> set (argsToAttrSlice kv). fst a \<noteq> TimeKey \<and> fst a \<noteq> LevelKey"
  then show "ReplaceAttrs (h_timeFormatter (slogger l)) (argsToAttrSlice kv) =
      Value (argsToAttrSlice kv)"
    by (rule ReplaceAttrs_unreserved)
next
  fix j
  show "''error_'' @ Sprintf_02d j \<noteq> ''error''"
    using Sprintf_02d_nonempty[of j] by simp
next
  assume "i < 100"
  then show "Sprintf_02d i = [digit (i div 10), digit (i mod 10)]"
    by (rule Sprintf_02d_two_digits)
next
  assume "100 \<le> i"
  then show "3 \<le> length (Sprintf_02d i)" by (rule Sprintf_02d_more_digits)
qed

lemma example_fields:
  "ReplaceAttrs (h_timeFormatter (slogger example_L))
     (argsToAttrSlice [AnyString ''key1'', AnyString ''value1'']) =
   Value [(''key1'', AnyString ''value1'')]"
  by (simp add: ReplaceAttr_def TimeKey_def LevelKey_def)

lemma example_Enabled_err: "Enabled (slogger example_L) slog_LevelError"
  by (simp add: Enabled_def example_L_def example_slogger_def slog_LevelError_def
      slog_LevelInfo_def)

theorem LogError_record_witness:
  "pairs_up [AnyString ''key1'', AnyString ''value1''] \<and>
   ReplaceAttrs (h_timeFormatter (slogger example_L))
     (argsToAttrSlice [AnyString ''key1'', AnyString ''value1'']) =
   Value [(''key1'', AnyString ''value1'')] \<and>
   LogError (Some example_L) example_env ''some error'' (Some (PlainError ''boom''))
     [AnyString ''key1'', AnyString ''value1''] =
   Returned [\<lparr>r_writer = Stdout, r_json = False,
              r_attrs = [(''ts'', AnyTime 0), (''level'', AnyString ''err''),
                         (''msg'', AnyString ''some error''),
                         (''somekey'', AnyString ''someval''), (''src'', AnyString ''myapp''),
                         (''key1'', AnyString ''value1''), (''error'', AnyString ''boom''),
                         (''caller'', AnyString ''main/main.go:11'')]\<rparr>] \<and>
   LogError (Some example_L) example_env ''some error'' (Some two_errors)
     [AnyString ''key1'', AnyString ''value1''] =
   Returned [\<lparr>r_writer = Stdout, r_json = False,
              r_attrs = [(''ts'', AnyTime 0), (''level'', AnyString ''err''),
                         (''msg'', AnyString ''some error''),
                         (''somekey'', AnyString ''someval''), (''src'', AnyString ''myapp''),
                         (''key1'', AnyString ''value1''),
                         (''error_00'', AnyString ''some err1''),
                         (''error_01'', AnyString ''some err2''),
                         (''caller'', AnyString ''main/main.go:11'')]\<rparr>] \<and>
   (7::nat) < 100 \<and> Sprintf_02d 7 = ''07''"
proof -
  have p: "pairs_up [AnyString ''key1'', AnyString ''value1'']" by simp
  note t = LogError_record[where l = example_L and kv = "[AnyString ''key1'', AnyString ''value1'']"
      and fs = "[(''key1'', AnyString ''value1'')]" and e = example_env
      and m = "''some error''" and i = 7]
  from t[where t = "''boom''"] p example_fields
  have one: "LogError (Some example_L) example_env ''some error'' (Some (PlainError ''boom''))
     [AnyString ''key1'', AnyString ''value1''] =
   Returned [\<lparr>r_writer = Stdout, r_json = False,
              r_attrs = [(''ts'', AnyTime 0), (''level'', AnyString ''err''),
                         (''msg'', AnyString ''some error''),
                         (''somekey'', AnyString ''someval''), (''src'', AnyString ''myapp''),
                         (''key1'', AnyString ''value1''), (''error'', AnyString ''boom''),
                         (''caller'', AnyString ''main/main.go:11'')]\<rparr>]"
    by (simp add: example_Enabled_err)
      (simp add: builtins_def caller_attr_def caller_def example_L_def example_slogger_def
        example_env_def)
  from t[where t = "''2 errors''"
      and errs = "[PlainError ''some err1'', PlainError ''some err2'']"] p example_fields
  have two: "LogError (Some example_L) example_env ''some error'' (Some two_errors)
     [AnyString ''key1'', AnyString ''value1''] =
   Returned [\<lparr>r_writer = Stdout, r_json = False,
              r_attrs = [(''ts'', AnyTime 0), (''level'', AnyString ''err''),
                         (''msg'', AnyString ''some error''),
                         (''somekey'', AnyString ''someval''), (''src'', AnyString ''myapp''),
                         (''key1'', AnyString ''value1''),
                         (''error_00'', AnyString ''some err1''),
                         (''error_01'', AnyString ''some err2''),
                         (''caller'', AnyString ''main/main.go:11'')]\<rparr>]"
    by (simp add: example_Enabled_err two_errors_def)
      (simp add: builtins_def caller_attr_def caller_def example_L_def example_slogger_def
        example_env_def enumerate_eq_zip Sprintf_02d_examples)
  show ?thesis
    by (intro conjI p example_fields one two) (simp_all add: Sprintf_02d_examples)
qed

text \<open>
  C4 as stated fails for the logger of the README in three ways. With 101 wrapped errors
  the last is logged under the key \<open>error_100\<close>, whose index has three digits. With the
  one field \<open>"key1"\<close>, a key without a value, the record of a plain error has no key
  \<open>error\<close> and that of two wrapped errors no key \<open>error_00\<close>: the first attribute
  \<open>LogError\<close> appends is taken as the value of \<open>key1\<close>. With a nil error, or a nil
  error among the wrapped ones, \<open>LogError\<close> panics at \<open>Error()\<close> and logs nothing.
\<close>

theorem LogError_fields_differ:
  "map (map fst \<circ> drop 105 \<circ> r_attrs)
     (written (LogError (Some example_L) example_env ''some error'' (Some many_errors) [])) =
   [[''error_100'', ''caller'']] \<and>
   map (map fst \<circ> r_attrs)
     (written (LogError (Some example_L) example_env ''some error'' (Some (PlainError ''boom''))
        [AnyString ''key1''])) =
   [[''ts'', ''level'', ''msg'', ''somekey'', ''src'', ''key1'', ''caller'']] \<and>
   map (map fst \<circ> r_attrs)
     (written (LogError (Some example_L) example_env ''some error'' (Some two_errors)
        [AnyString ''key1''])) =
   [[''ts'', ''level'', ''msg'', ''somekey'', ''src'', ''key1'', ''error_01'', ''caller'']] \<and>
   LogError (Some example_L) example_env ''some error'' None [] = Panicked [] \<and>
   LogError (Some example_L) example_env ''some error'' (Some (MultiError ''1 error'' [None])) [] =
     Panicked []"
  by (intro conjI; code_simp)

section \<open>Sub-loggers\<close>

lemma Join_snoc: "xs \<noteq> [] \<Longrightarrow> Join (xs @ [n]) sep = Join xs sep @ sep @ n"
  by (induction xs sep rule: Join.induct) auto

text \<open>
  In the current revision \<open>(l *L) New(name)\<close> gives a handle whose \<open>src\<close> is that of the
  parent with \<open>name\<close> appended, whose attributes are those of the parent followed by
  \<open>src\<close>, the segments joined with dots, and whose \<open>showCaller\<close> and \<open>callerPrefixTrim\<close>
  are the parent's (lemma \<open>L_New_child\<close>); so for the logger of the README, its
  sub-logger and the sub-logger of that.
\<close>

lemma L_New_grandchild:
  "L_New (Some example_L) ''sublogger'' = Value example_sub \<and>
   L_New (Some example_sub) ''grandchild'' = Value example_grandchild"
  by (simp add: L_New_child example_L_def example_sub_def example_grandchild_def
      example_slogger_def)

text \<open>
  C5, in the first slog revision. The logger of the README shows the caller; the
  sub-logger \<open>New("sublogger")\<close> makes of it has \<open>showCaller\<close> false.
\<close>

theorem L_New_old_drops_showCaller:
  "New_old levelNames example_env ''go-logger.test'' example_opts = Value example_old \<and>
   showCaller_old example_old = True \<and>
   L_New_old (Some example_old) ''sublogger'' =
     Value \<lparr>slogger_old = (slogger_old example_old)\<lparr>h_attrs :=
               [(''somekey'', AnyString ''someval''), (''src'', AnyString ''myapp''),
                (''src'', AnyString ''myapp.sublogger'')]\<rparr>,
            src_old = [''myapp'', ''sublogger''], showCaller_old = False\<rparr>"
  by (simp add: example_New_old L_New_old_def slog_With_src example_old_def example_slogger_def)

section \<open>Options\<close>

lemma apply_opts_append: "apply_opts (xs @ ys) opt = apply_opts ys (apply_opts xs opt)"
  by (induction xs arbitrary: opt) auto

lemma apply_Option_keeps_keyvals:
  "\<not> is_With o' \<Longrightarrow> o_keyvals (apply_Option o' opt) = o_keyvals opt"
  by (cases o') (auto simp: set_callerPrefixTrim_def split: option.splits)

lemma apply_opts_keeps_keyvals:
  "\<forall>o' \<in> set post. \<not> is_With o' \<Longrightarrow> o_keyvals (apply_opts post opt) = o_keyvals opt"
  by (induction post arbitrary: opt) (auto simp: apply_Option_keeps_keyvals)

lemma last_With_keyvals:
  assumes "\<forall>o' \<in> set post. \<not> is_With o'"
  shows "o_keyvals (apply_opts (pre @ With kv # post) opt) = kv"
  using assms by (simp add: apply_opts_append apply_opts_keeps_keyvals)

text \<open>
  C8. When \<open>With(kv...)\<close> is the last \<open>With\<close> among the options, whatever options come
  before it, other \<open>With\<close> included, the options \<open>New\<close> has built hold exactly \<open>kv\<close> as
  their static fields, and the attributes of the logger \<open>New\<close> returns are those of \<open>kv\<close>
  followed by \<open>src\<close>, as \<open>ReplaceAttr\<close> leaves them.
\<close>

theorem last_With_wins:
  assumes "\<forall>o' \<in> set post. \<not> is_With o'"
  shows "o_keyvals (apply_opts (pre @ With kv # post) (default_options prog)) = kv \<and>
         (New e prog leveler (pre @ With kv # post) = Value l \<longrightarrow>
            ReplaceAttrs (h_timeFormatter (slogger l))
              (argsToAttrSlice
                 (kv @ [slog_String ''src''
                          (o_name (apply_opts (pre @ With kv # post) (default_options prog)))])) =
            Value (h_attrs (slogger l)))"
proof (intro conjI impI)
  show kv: "o_keyvals (apply_opts (pre @ With kv # post) (default_options prog)) = kv"
    using assms by (rule last_With_keyvals)
  assume n: "New e prog leveler (pre @ With kv # post) = Value l"
  from New_cases[OF n] obtain as where
    as: "ReplaceAttrs (o_timeFormatter (install_timeFormatter e
             (apply_opts (pre @ With kv # post) (default_options prog))))
       (argsToAttrSlice (o_keyvals (apply_opts (pre @ With kv # post) (default_options prog)) @
          [slog_String ''src'' (o_name (apply_opts (pre @ With kv # post) (default_options prog)))])) =
     Value as"
    and h: "h_attrs (slogger l) = as"
    and tf: "h_timeFormatter (slogger l) =
           o_timeFormatter (install_timeFormatter e
             (apply_opts (pre @ With kv # post) (default_options prog)))"
    by blast
  show "ReplaceAttrs (h_timeFormatter (slogger l))
              (argsToAttrSlice
                 (kv @ [slog_String ''src''
                          (o_name (apply_opts (pre @ With kv # post) (default_options prog)))])) =
            Value (h_attrs (slogger l))"
    using as unfolding kv h tf .
qed

lemma two_With_New: "New example_env ''go-logger.test'' None two_With_opts = Value example_L"
  by (simp add: New_def two_With_opts_def example_L_def example_slogger_def example_env_def
      default_options_def install_timeFormatter_def slog_New_def slog_With_def slog_String_def
      ReplaceAttr_def TimeKey_def LevelKey_def ToLower_logfmt Let_def)

theorem last_With_wins_witness:
  "o_keyvals (apply_opts two_With_opts (default_options ''go-logger.test'')) =
     [AnyString ''somekey'', AnyString ''someval''] \<and>
   New example_env ''go-logger.test'' None two_With_opts = Value example_L \<and>
   h_attrs (slogger example_L) =
     [(''somekey'', AnyString ''someval''), (''src'', AnyString ''myapp'')]"
proof -
  have h: "\<forall>o' \<in> set [WithFormat FormatLogFmt]. \<not> is_With o'" by simp
  have d: "two_With_opts =
             [With [AnyString ''key1'', AnyString ''value1''], WithName ''myapp''] @
             With [AnyString ''somekey'', AnyString ''someval''] # [WithFormat FormatLogFmt]"
    by (simp add: two_With_opts_def)
  have n: "New example_env ''go-logger.test'' None two_With_opts = Value example_L"
    by (rule two_With_New)
  from last_With_wins[OF h, where pre = "[With [AnyString ''key1'', AnyString ''value1''],
        WithName ''myapp'']" and kv = "[AnyString ''somekey'', AnyString ''someval'']"
      and prog = "''go-logger.test''"]
  have "o_keyvals (apply_opts two_With_opts (default_options ''go-logger.test'')) =
     [AnyString ''somekey'', AnyString ''someval'']"
    unfolding d by (rule conjunct1)
  with n show ?thesis by (simp add: example_L_def example_slogger_def)
qed

section \<open>The empty level downstream\<close>

text \<open>
  In the first slog revision \<open>Default()\<close> gives no level, so the threshold of its
  handler is \<open>ParseLevel("")\<close>: when the loop meets \<open>fatal\<close> first, the default logger
  drops \<open>Info\<close> records.
\<close>

lemma Default_old_threshold:
  "iteration_order levelNames fatal_first \<and>
   (case Default_old fatal_first example_env ''go-logger.test'' of
      Value l \<Rightarrow> h_Level (slogger_old l) = Some LevelFatal \<and>
                 \<not> Enabled (slogger_old l) slog_LevelInfo
    | Panics \<Rightarrow> False)"
  by (simp add: iteration_order_def fatal_first_def levelNames_def Default_old_def New_old_def
      default_options_def install_timeFormatter_def example_env_def slog_New_def slog_With_def
      slog_String_def ReplaceAttr_def TimeKey_def LevelKey_def ToLower_logfmt ParseLevel_def
      ToLower_def Enabled_def LevelFatal_def slog_LevelInfo_def LevelAll_def Let_def)

end
